theory Spec2Isabelle
  imports Complex_Main "HOL-Library.Log_Nat" "HOL-Library.Multiset" "HOL-Library.Sublist"
begin

section \<open>Python values used by \<^verbatim>\<open>battery_report.py\<close>\<close>

subsection \<open>Floats\<close>

text \<open>
  A Python \<^verbatim>\<open>float\<close> is an IEEE-754 binary64 number. A finite one is
  represented by its exact rational value; the two infinities and NaN are separate
  constructors. The two zeros \<^verbatim>\<open>0.0\<close> and \<^verbatim>\<open>-0.0\<close>, which
  Python's \<^verbatim>\<open>==\<close> does not tell apart, are both \<open>Fin 0\<close>.
\<close>

datatype pyfloat = Fin rat | PInf | NInf | NaN

text \<open>Rounding a rational number to the nearest integer, ties to the even one.\<close>

definition round_half_even :: "rat \<Rightarrow> int" where
  "round_half_even x =
     (let f = \<lfloor>x\<rfloor>; d = x - of_int f
      in if d < 1 / 2 then f
         else if 1 / 2 < d then f + 1
         else if even f then f else f + 1)"

text \<open>
  The binary exponent \<open>e\<close> with \<open>2 powi e \<le> \<bar>x\<bar> < 2 powi (e + 1)\<close> of a
  non-zero rational, not below the exponent \<open>-1022\<close> of the subnormal numbers.
\<close>

definition float_exponent :: "rat \<Rightarrow> int" where
  "float_exponent x =
     (let (p, q) = quotient_of \<bar>x\<bar>;
          k = bitlen p - bitlen q;
          e = (if 2 powi k \<le> \<bar>x\<bar> then k else k - 1)
      in max (- 1022) e)"

text \<open>
  The binary64 number nearest to an exact result (round to nearest, ties to even, 53
  bits of precision): the rounding every arithmetic operation and every decimal literal
  goes through. With \<open>u\<close> the unit in the last place, the result is the multiple
  \<open>m * u\<close>; it overflows to an infinity when it reaches \<open>2 ^ 1024\<close>, that is
  when the exponent is above 1023, or is 1023 and the significand rounds up to
  \<open>2 ^ 53\<close>.
\<close>

definition to_double :: "rat \<Rightarrow> pyfloat" where
  "to_double x =
     (if x = 0 then Fin 0
      else let e = float_exponent x;
               u = 2 powi (e - 52);
               m = round_half_even (x / u)
           in if 1023 < e \<or> (e = 1023 \<and> \<bar>m\<bar> = 2 ^ 53)
              then (if 0 < x then PInf else NInf)
              else Fin (of_int m * u))"

text \<open>Comparisons: every comparison with NaN is false.\<close>

fun py_lt :: "pyfloat \<Rightarrow> pyfloat \<Rightarrow> bool" where
  "py_lt NaN y = False"
| "py_lt x NaN = False"
| "py_lt (Fin a) (Fin b) = (a < b)"
| "py_lt x NInf = False"
| "py_lt PInf y = False"
| "py_lt NInf y = True"
| "py_lt (Fin a) PInf = True"

definition py_gt :: "pyfloat \<Rightarrow> pyfloat \<Rightarrow> bool" where
  "py_gt x y = py_lt y x"

definition py_eq :: "pyfloat \<Rightarrow> pyfloat \<Rightarrow> bool" where
  "py_eq x y = (x \<noteq> NaN \<and> x = y)"

datatype py_error = ZeroDivisionError | ValueError

text \<open>\<^verbatim>\<open>a - b\<close>\<close>

fun py_sub :: "pyfloat \<Rightarrow> pyfloat \<Rightarrow> pyfloat" where
  "py_sub NaN y = NaN"
| "py_sub x NaN = NaN"
| "py_sub (Fin a) (Fin b) = to_double (a - b)"
| "py_sub PInf PInf = NaN"
| "py_sub NInf NInf = NaN"
| "py_sub PInf y = PInf"
| "py_sub NInf y = NInf"
| "py_sub (Fin a) PInf = NInf"
| "py_sub (Fin a) NInf = PInf"

text \<open>\<^verbatim>\<open>a * b\<close>\<close>

fun py_mul :: "pyfloat \<Rightarrow> pyfloat \<Rightarrow> pyfloat" where
  "py_mul NaN y = NaN"
| "py_mul x NaN = NaN"
| "py_mul (Fin a) (Fin b) = to_double (a * b)"
| "py_mul x y =
     (if x = Fin 0 \<or> y = Fin 0 then NaN
      else if py_lt x (Fin 0) = py_lt y (Fin 0) then PInf else NInf)"

text \<open>
  \<^verbatim>\<open>a / b\<close>: Python raises \<^verbatim>\<open>ZeroDivisionError\<close> when the divisor
  equals zero, and divides as IEEE-754 does otherwise.
\<close>

fun float_div :: "pyfloat \<Rightarrow> pyfloat \<Rightarrow> pyfloat" where
  "float_div NaN y = NaN"
| "float_div x NaN = NaN"
| "float_div (Fin a) (Fin b) = to_double (a / b)"
| "float_div (Fin a) y = Fin 0"
| "float_div x (Fin b) = (if py_lt x (Fin 0) = (b < 0) then PInf else NInf)"
| "float_div x y = NaN"

definition py_truediv :: "pyfloat \<Rightarrow> pyfloat \<Rightarrow> py_error + pyfloat" where
  "py_truediv x y = (if py_eq y (Fin 0) then Inl ZeroDivisionError else Inr (float_div x y))"

text \<open>
  \<^verbatim>\<open>round(x, ndigits)\<close> for \<open>ndigits \<ge> 0\<close>: the decimal with
  \<open>ndigits\<close> places nearest to the exact value of \<open>x\<close> (ties to even), converted
  back to a float; infinities and NaN round to themselves.
\<close>

fun py_round :: "pyfloat \<Rightarrow> nat \<Rightarrow> pyfloat" where
  "py_round (Fin a) ndigits = to_double (of_int (round_half_even (a * 10 ^ ndigits)) / 10 ^ ndigits)"
| "py_round x ndigits = x"

text \<open>
  \<^verbatim>\<open>max(xs)\<close> and \<^verbatim>\<open>min(xs)\<close>: \<^verbatim>\<open>ValueError\<close> on an empty
  list; otherwise start from the first item and replace the running value by each later
  item that compares strictly greater (smaller).
\<close>

fun py_max :: "pyfloat list \<Rightarrow> py_error + pyfloat" where
  "py_max [] = Inl ValueError"
| "py_max (x # xs) = Inr (foldl (\<lambda>maxval item. if py_gt item maxval then item else maxval) x xs)"

fun py_min :: "pyfloat list \<Rightarrow> py_error + pyfloat" where
  "py_min [] = Inl ValueError"
| "py_min (x # xs) = Inr (foldl (\<lambda>minval item. if py_lt item minval then item else minval) x xs)"

text \<open>\<^verbatim>\<open>d.get(key, default)\<close>, on the entry of \<open>key\<close> (\<open>None\<close> when absent).\<close>

definition dict_get :: "'a option \<Rightarrow> 'a \<Rightarrow> 'a" where
  "dict_get entry dflt = (case entry of None \<Rightarrow> dflt | Some v \<Rightarrow> v)"

section \<open>The data model\<close>

text \<open>
  One entry of \<^verbatim>\<open>cells\<close>: \<^verbatim>\<open>{"id": ..., "voltage": ..., "temperature": ...}\<close>.
  The three keys are present and the two readings are floats, as the data simulator
  produces them; a cell without a reading is outside the input the analyzer is written
  for.
\<close>

record cell =
  cell_id :: int
  voltage :: pyfloat
  temperature :: pyfloat

text \<open>
  The diagnostic snapshot is a dictionary; each of its six keys may be absent
  (\<open>None\<close>). The cycle count is an integer and the two capacities are floats.
\<close>

record diagnostic_data =
  get_vehicle_id :: "string option"
  get_timestamp :: "string option"
  get_cells :: "cell list option"
  get_cycle_count :: "int option"
  get_nominal_capacity_kwh :: "pyfloat option"
  get_current_capacity_kwh :: "pyfloat option"

text \<open>The attributes of a \<^verbatim>\<open>BatteryReport\<close> object.\<close>

record battery_report =
  data :: diagnostic_data
  cells :: "cell list"
  cycle_count :: int
  nominal_capacity :: pyfloat
  current_capacity :: pyfloat

text \<open>The values stored in the report dictionary.\<close>

datatype pyval = PyFloat pyfloat | PyInt int | PyStrList "string list"

type_synonym report = "(string \<times> pyval) list"

section \<open>Class \<^verbatim>\<open>BatteryReport\<close>\<close>

text \<open>
  The class constants. The literal \<^verbatim>\<open>0.05\<close> is the float nearest to 1/20;
  \<^verbatim>\<open>45.0\<close>, \<^verbatim>\<open>80.0\<close> and \<^verbatim>\<open>100\<close> are floats exactly.
\<close>

definition VOLTAGE_IMBALANCE_THRESHOLD :: pyfloat where
  "VOLTAGE_IMBALANCE_THRESHOLD = to_double (5 / 100)"

definition OVERHEATING_THRESHOLD :: pyfloat where
  "OVERHEATING_THRESHOLD = Fin 45"

definition LOW_HEALTH_THRESHOLD :: pyfloat where
  "LOW_HEALTH_THRESHOLD = Fin 80"

text \<open>
  \<^verbatim>\<open>__init__\<close>. The defaults of the two capacities are the integer
  \<^verbatim>\<open>0\<close>, which equals and divides like the float \<^verbatim>\<open>0.0\<close>.
\<close>

definition BatteryReport :: "diagnostic_data \<Rightarrow> battery_report" where
  "BatteryReport diagnostic_data =
     \<lparr> data = diagnostic_data,
       cells = dict_get (get_cells diagnostic_data) [],
       cycle_count = dict_get (get_cycle_count diagnostic_data) 0,
       nominal_capacity = dict_get (get_nominal_capacity_kwh diagnostic_data) (Fin 0),
       current_capacity = dict_get (get_current_capacity_kwh diagnostic_data) (Fin 0) \<rparr>"

definition calculate_state_of_health :: "battery_report \<Rightarrow> py_error + pyfloat" where
  "calculate_state_of_health self =
     (if py_eq (nominal_capacity self) (Fin 0) then Inr (Fin 0)
      else case py_truediv (current_capacity self) (nominal_capacity self) of
             Inl e \<Rightarrow> Inl e
           | Inr ratio \<Rightarrow> Inr (py_round (py_mul ratio (Fin 100)) 2))"

definition detect_voltage_imbalance :: "battery_report \<Rightarrow> py_error + bool" where
  "detect_voltage_imbalance self =
     (if cells self = [] then Inr False
      else let voltages = map voltage (cells self)
           in case py_max voltages of
                Inl e \<Rightarrow> Inl e
              | Inr hi \<Rightarrow>
                  (case py_min voltages of
                     Inl e \<Rightarrow> Inl e
                   | Inr lo \<Rightarrow> Inr (py_gt (py_sub hi lo) VOLTAGE_IMBALANCE_THRESHOLD)))"

text \<open>The \<^verbatim>\<open>for\<close> loop of \<^verbatim>\<open>detect_overheating\<close>, returning at the first hot cell.\<close>

fun overheating_loop :: "cell list \<Rightarrow> bool" where
  "overheating_loop [] = False"
| "overheating_loop (c # cs) =
     (if py_gt (temperature c) OVERHEATING_THRESHOLD then True else overheating_loop cs)"

definition detect_overheating :: "battery_report \<Rightarrow> bool" where
  "detect_overheating self = (if cells self = [] then False else overheating_loop (cells self))"

definition detect_low_health :: "battery_report \<Rightarrow> pyfloat \<Rightarrow> bool" where
  "detect_low_health self soh = py_lt soh LOW_HEALTH_THRESHOLD"

definition detect_anomalies :: "battery_report \<Rightarrow> pyfloat \<Rightarrow> py_error + string list" where
  "detect_anomalies self soh =
     (let anomalies0 = []
      in case detect_voltage_imbalance self of
           Inl e \<Rightarrow> Inl e
         | Inr imbalance \<Rightarrow>
             (let anomalies1 = (if imbalance then anomalies0 @ [''Voltage imbalance detected'']
                                else anomalies0);
                  anomalies2 = (if detect_overheating self then anomalies1 @ [''Overheating detected'']
                                else anomalies1);
                  anomalies3 = (if detect_low_health self soh then anomalies2 @ [''Low State of Health'']
                                else anomalies2)
              in Inr anomalies3))"

definition generate_report :: "battery_report \<Rightarrow> py_error + report" where
  "generate_report self =
     (case calculate_state_of_health self of
        Inl e \<Rightarrow> Inl e
      | Inr soh \<Rightarrow>
          (case detect_anomalies self soh of
             Inl e \<Rightarrow> Inl e
           | Inr anomalies \<Rightarrow>
               Inr [(''battery_soh'', PyFloat soh),
                    (''cycle_count'', PyInt (cycle_count self)),
                    (''anomalies'', PyStrList anomalies)]))"

section \<open>Sample snapshots\<close>

text \<open>The fixture of the test suite (\<^verbatim>\<open>setUp\<close> in \<^verbatim>\<open>tests/test_battery_report.py\<close>).\<close>

definition base_data :: diagnostic_data where
  "base_data =
     \<lparr> get_vehicle_id = Some ''EV-TEST-001'',
       get_timestamp = Some ''2025-10-04T10:00:00Z'',
       get_cells = Some [\<lparr>cell_id = 0, voltage = Fin 4, temperature = Fin 30\<rparr>,
                         \<lparr>cell_id = 1, voltage = Fin 4, temperature = Fin 31\<rparr>,
                         \<lparr>cell_id = 2, voltage = Fin 4, temperature = Fin 32\<rparr>],
       get_cycle_count = Some 300,
       get_nominal_capacity_kwh = Some (Fin 60),
       get_current_capacity_kwh = Some (Fin 54) \<rparr>"

section \<open>Properties of the float operations\<close>

subsection \<open>Rounding\<close>

text \<open>
  The rounding is the one it is meant to be: the exponent brackets the number, and the
  float returned for an exact result is within half a unit in the last place of it.
\<close>

lemma round_half_even_close: "\<bar>of_int (round_half_even x) - x\<bar> \<le> 1 / 2"
proof -
  have "of_int \<lfloor>x\<rfloor> \<le> x" "x < of_int \<lfloor>x\<rfloor> + 1"
    by linarith+
  then show ?thesis
    by (auto simp: round_half_even_def Let_def)
qed

lemma bitlen_powi_bounds:
  assumes "0 < n"
  shows "(2::rat) powi (bitlen n - 1) \<le> of_int n" "of_int n < (2::rat) powi bitlen n"
proof -
  from assms have b: "1 \<le> bitlen n"
    using bitlen_eq_zero_iff [of n] bitlen_nonneg [of n] by linarith
  from bitlen_bounds [OF assms]
  have "(2::int) ^ nat (bitlen n - 1) \<le> n" "n < (2::int) ^ nat (bitlen n)" by simp_all
  then have "(of_int ((2::int) ^ nat (bitlen n - 1)) :: rat) \<le> of_int n"
    "(of_int n :: rat) < of_int ((2::int) ^ nat (bitlen n))"
    by (simp_all only: of_int_le_iff of_int_less_iff)
  then have "(2::rat) ^ nat (bitlen n - 1) \<le> of_int n" "of_int n < (2::rat) ^ nat (bitlen n)"
    by simp_all
  moreover have "(2::rat) powi (bitlen n - 1) = 2 ^ nat (bitlen n - 1)"
    using b by (simp add: power_int_def)
  moreover have "(2::rat) powi bitlen n = 2 ^ nat (bitlen n)"
    using b by (simp add: power_int_def)
  ultimately show "(2::rat) powi (bitlen n - 1) \<le> of_int n" "of_int n < (2::rat) powi bitlen n"
    by simp_all
qed

lemma float_exponent_bounds:
  assumes "x \<noteq> 0"
  shows "(float_exponent x = - 1022 \<and> \<bar>x\<bar> < 2 powi (- 1021)) \<or>
         (2 powi float_exponent x \<le> \<bar>x\<bar> \<and> \<bar>x\<bar> < 2 powi (float_exponent x + 1))"
proof -
  obtain p q where pq: "quotient_of \<bar>x\<bar> = (p, q)" by (cases "quotient_of \<bar>x\<bar>")
  then have q: "0 < q" and x: "\<bar>x\<bar> = of_int p / of_int q"
    by (simp_all add: quotient_of_denom_pos quotient_of_div)
  from assms have "0 < \<bar>x\<bar>" by simp
  with q x have p: "0 < p" by (simp add: zero_less_divide_iff)
  define k where "k = bitlen p - bitlen q"
  define e where "e = (if 2 powi k \<le> \<bar>x\<bar> then k else k - 1)"
  have fe: "float_exponent x = max (- 1022) e"
    by (simp add: float_exponent_def pq k_def e_def Let_def)
  have qr: "(0::rat) < of_int q" using q by simp
  have lo: "(2::rat) powi (k - 1) \<le> \<bar>x\<bar>"
  proof -
    have "(2::rat) powi (k - 1) = 2 powi (bitlen p - 1) / 2 powi bitlen q"
      by (simp add: k_def power_int_diff [symmetric] algebra_simps)
    also have "\<dots> \<le> of_int p / 2 powi bitlen q"
      using bitlen_powi_bounds(1) [OF p] by (simp add: divide_right_mono)
    also have "\<dots> \<le> of_int p / of_int q"
      using bitlen_powi_bounds(2) [OF q] p qr by (simp add: frac_le)
    finally show ?thesis by (simp add: x)
  qed
  have hi: "\<bar>x\<bar> < (2::rat) powi (k + 1)"
  proof -
    have "\<bar>x\<bar> = of_int p / of_int q" by (rule x)
    also have "\<dots> < 2 powi bitlen p / of_int q"
      using bitlen_powi_bounds(2) [OF p] qr by (simp add: divide_strict_right_mono)
    also have "\<dots> \<le> 2 powi bitlen p / 2 powi (bitlen q - 1)"
      using bitlen_powi_bounds(1) [OF q] by (simp add: frac_le)
    also have "\<dots> = 2 powi (k + 1)"
      by (simp add: k_def power_int_diff [symmetric] algebra_simps)
    finally show ?thesis .
  qed
  have e: "2 powi e \<le> \<bar>x\<bar>" "\<bar>x\<bar> < 2 powi (e + 1)"
    using lo hi by (auto simp: e_def)
  show ?thesis
  proof (cases "- 1022 \<le> e")
    case True
    with fe e show ?thesis by simp
  next
    case False
    then have "e + 1 \<le> - 1021" by simp
    then have "(2::rat) powi (e + 1) \<le> 2 powi (- 1021)"
      by (intro power_int_increasing) simp_all
    with e(2) False fe show ?thesis by simp
  qed
qed

lemma to_double_half_ulp:
  assumes "to_double x = Fin r"
  shows "\<bar>r - x\<bar> \<le> 2 powi (float_exponent x - 53)"
proof (cases "x = 0")
  case True
  with assms show ?thesis by (simp add: to_double_def)
next
  case False
  let ?u = "(2::rat) powi (float_exponent x - 52)"
  have u: "0 < ?u" by simp
  from assms False have r: "r = of_int (round_half_even (x / ?u)) * ?u"
    by (simp add: to_double_def Let_def split: if_splits)
  have "r - x = (of_int (round_half_even (x / ?u)) - x / ?u) * ?u"
    using u by (simp add: r left_diff_distrib)
  then have "\<bar>r - x\<bar> = \<bar>of_int (round_half_even (x / ?u)) - x / ?u\<bar> * \<bar>?u\<bar>"
    by (simp only: abs_mult)
  also have "\<dots> = \<bar>of_int (round_half_even (x / ?u)) - x / ?u\<bar> * ?u"
    using u by simp
  also have "\<dots> \<le> 1 / 2 * ?u"
    using round_half_even_close [of "x / ?u"] u by (intro mult_right_mono) simp_all
  also have "\<dots> = 2 powi (float_exponent x - 53)"
    by (simp add: power_int_diff)
  finally show ?thesis .
qed

lemma round_half_even_ge: "of_int n \<le> x \<Longrightarrow> n \<le> round_half_even x"
proof -
  assume "of_int n \<le> x"
  then have "n \<le> \<lfloor>x\<rfloor>" by (simp add: le_floor_iff)
  then show ?thesis by (auto simp: round_half_even_def Let_def)
qed

lemma round_half_even_le: "x \<le> of_int n \<Longrightarrow> round_half_even x \<le> n"
proof -
  assume a: "x \<le> of_int n"
  then have f: "\<lfloor>x\<rfloor> \<le> n" by (simp add: floor_le_iff)
  show ?thesis
  proof (cases "\<lfloor>x\<rfloor> = n")
    case True
    with a have "x - of_int \<lfloor>x\<rfloor> \<le> 0" by simp
    then show ?thesis using True by (simp add: round_half_even_def Let_def)
  next
    case False
    with f have "\<lfloor>x\<rfloor> + 1 \<le> n" by simp
    then show ?thesis by (auto simp: round_half_even_def Let_def)
  qed
qed

lemma round_half_even_gt_even:
  assumes "even n"
  shows "n < round_half_even y \<longleftrightarrow> of_int n + 1 / 2 < y"
proof
  assume y: "of_int n + 1 / 2 < y"
  then have "of_int n \<le> y" by linarith
  then have f: "n \<le> \<lfloor>y\<rfloor>" by (simp add: le_floor_iff)
  show "n < round_half_even y"
  proof (cases "\<lfloor>y\<rfloor> = n")
    case True
    with y have "1 / 2 < y - of_int \<lfloor>y\<rfloor>" by simp
    then show ?thesis using True by (simp add: round_half_even_def Let_def)
  next
    case False
    with f have "n < \<lfloor>y\<rfloor>" by simp
    then show ?thesis by (auto simp: round_half_even_def Let_def)
  qed
next
  assume r: "n < round_half_even y"
  show "of_int n + 1 / 2 < y"
  proof (rule ccontr)
    assume "\<not> of_int n + 1 / 2 < y"
    then have y: "y \<le> of_int n + 1 / 2" by simp
    then have "y < of_int (n + 1)" by simp
    then have "\<lfloor>y\<rfloor> < n + 1" by (simp only: floor_less_iff)
    then have f: "\<lfloor>y\<rfloor> \<le> n" by simp
    show False
    proof (cases "\<lfloor>y\<rfloor> = n")
      case True
      with y have "y - of_int \<lfloor>y\<rfloor> \<le> 1 / 2" by simp
      with True assms have "round_half_even y = n"
        by (auto simp: round_half_even_def Let_def)
      with r show False by simp
    next
      case False
      with f have "\<lfloor>y\<rfloor> + 1 \<le> n" by simp
      then have "round_half_even y \<le> n" by (auto simp: round_half_even_def Let_def)
      with r show False by simp
    qed
  qed
qed


lemma py_round_two_places:
  "\<exists>k::int. \<bar>of_int k / 100 - p\<bar> \<le> 1 / 200 \<and> py_round (Fin p) 2 = to_double (of_int k / 100)"
proof -
  let ?k = "round_half_even (p * 10 ^ 2)"
  have "\<bar>of_int ?k - p * 100\<bar> \<le> 1 / 2"
    using round_half_even_close [of "p * 10 ^ 2"] by simp
  then have "\<bar>of_int ?k / 100 - p\<bar> \<le> 1 / 200"
    by (simp add: field_simps abs_le_iff)
  moreover have "py_round (Fin p) 2 = to_double (of_int ?k / 100)"
    by simp
  ultimately show ?thesis by blast
qed

subsection \<open>Comparing a rounded result with the imbalance threshold\<close>

text \<open>
  The threshold \<^verbatim>\<open>0.05\<close> is the float \<open>3602879701896397 / 2 ^ 56\<close>, whose
  53-bit significand is even. An exact result rounds to a float strictly above it exactly
  when it lies strictly above the midpoint between the threshold and the next float,
  half a unit in the last place (\<open>1 / 2 ^ 58\<close>) further up.
\<close>

lemma threshold_value:
  "VOLTAGE_IMBALANCE_THRESHOLD = Fin (3602879701896397 / 72057594037927936)"
  by code_simp

lemma powi_split_53: "(2::rat) powi (e + 1) = 2 ^ 53 * 2 powi (e - 52)"
  using power_int_add [of "2::rat" 53 "e - 52"] by (simp add: algebra_simps)

lemma powi_split_52: "(2::rat) powi e = 2 ^ 52 * 2 powi (e - 52)"
  using power_int_add [of "2::rat" 52 "e - 52"] by (simp add: algebra_simps)

lemma float_exponent_upper:
  assumes "x \<noteq> 0"
  shows "\<bar>x\<bar> < 2 powi (float_exponent x + 1)"
  using float_exponent_bounds [OF assms] by auto

lemma to_double_nonpos:
  assumes "x \<le> 0" and that: "0 < c"
  shows "\<not> py_lt (Fin c) (to_double x)"
proof (cases "x = 0")
  case True
  with that show ?thesis by (simp add: to_double_def)
next
  case False
  let ?u = "(2::rat) powi (float_exponent x - 52)"
  have u: "0 < ?u" by simp
  from assms have "x / ?u \<le> of_int 0" using u by (simp add: divide_le_0_iff)
  then have "round_half_even (x / ?u) \<le> 0" by (rule round_half_even_le)
  then have "of_int (round_half_even (x / ?u)) * ?u \<le> 0"
    using u by (simp add: mult_le_0_iff)
  with that assms False show ?thesis
    by (simp add: to_double_def Let_def)
qed

lemma to_double_small:
  assumes "0 < x" and "x < 1 / 32"
  shows "\<not> py_lt (Fin (3602879701896397 / 72057594037927936)) (to_double x)"
proof -
  let ?e = "float_exponent x"
  let ?u = "(2::rat) powi (?e - 52)"
  let ?m = "round_half_even (x / ?u)"
  have u: "0 < ?u" by simp
  from assms have nz: "x \<noteq> 0" by simp
  have e: "?e \<le> - 6"
  proof (rule ccontr)
    assume "\<not> ?e \<le> - 6"
    then have e5: "- 5 \<le> ?e" by simp
    then have "(2::rat) powi (- 5) \<le> 2 powi ?e"
      by (intro power_int_increasing) simp_all
    moreover from float_exponent_bounds [OF nz] e5 have "2 powi ?e \<le> \<bar>x\<bar>" by auto
    ultimately have "(2::rat) powi (- 5) \<le> x" using assms(1) by simp
    with assms(2) show False by (simp add: power_int_minus)
  qed
  have "x < 2 powi (?e + 1)" using float_exponent_upper [OF nz] assms(1) by simp
  then have "x < 2 ^ 53 * ?u" by (simp only: powi_split_53)
  then have "x / ?u \<le> of_int (2 ^ 53)" using u by (simp add: pos_divide_le_eq)
  then have "?m \<le> 2 ^ 53" by (rule round_half_even_le)
  then have "(of_int ?m :: rat) \<le> of_int (2 ^ 53)" by (simp only: of_int_le_iff)
  then have "of_int ?m * ?u \<le> 2 ^ 53 * ?u" using u by (simp add: mult_right_mono)
  also have "\<dots> = 2 powi (?e + 1)" by (simp only: powi_split_53)
  also have "\<dots> \<le> 2 powi (- 5)" using e by (intro power_int_increasing) simp_all
  finally have "of_int ?m * ?u \<le> 1 / 32" by (simp add: power_int_minus)
  then have "\<not> 3602879701896397 / 72057594037927936 < of_int ?m * ?u" by simp
  with nz e show ?thesis by (simp add: to_double_def Let_def)
qed

lemma to_double_large:
  assumes "1 / 16 \<le> x"
  shows "py_lt (Fin (3602879701896397 / 72057594037927936)) (to_double x)"
proof -
  let ?e = "float_exponent x"
  let ?u = "(2::rat) powi (?e - 52)"
  let ?m = "round_half_even (x / ?u)"
  have u: "0 < ?u" by simp
  from assms have pos: "0 < x" by simp
  then have nz: "x \<noteq> 0" by simp
  have up: "x < 2 powi (?e + 1)" using float_exponent_upper [OF nz] pos by simp
  have e: "- 4 \<le> ?e"
  proof (rule ccontr)
    assume "\<not> - 4 \<le> ?e"
    then have "?e + 1 \<le> - 4" by simp
    then have "(2::rat) powi (?e + 1) \<le> 2 powi (- 4)"
      by (intro power_int_increasing) simp_all
    with up assms show False by (simp add: power_int_minus)
  qed
  with float_exponent_bounds [OF nz] pos have lo: "2 powi ?e \<le> x" by auto
  then have "2 ^ 52 * ?u \<le> x" by (simp only: powi_split_52 [symmetric])
  then have "of_int (2 ^ 52) \<le> x / ?u" using u by (simp add: pos_le_divide_eq)
  then have "2 ^ 52 \<le> ?m" by (rule round_half_even_ge)
  then have "(of_int (2 ^ 52) :: rat) \<le> of_int ?m" by (simp only: of_int_le_iff)
  then have "2 ^ 52 * ?u \<le> of_int ?m * ?u" using u by (simp add: mult_right_mono)
  then have "2 powi ?e \<le> of_int ?m * ?u" by (simp only: powi_split_52 [symmetric])
  moreover have "(2::rat) powi (- 4) \<le> 2 powi ?e" using e by (intro power_int_increasing) simp_all
  ultimately have "1 / 16 \<le> of_int ?m * ?u" by (simp add: power_int_minus)
  then have "3602879701896397 / 72057594037927936 < of_int ?m * ?u" by simp
  with nz pos show ?thesis by (simp add: to_double_def Let_def)
qed

lemma to_double_middle:
  assumes "1 / 32 \<le> x" and "x < 1 / 16"
  shows "py_lt (Fin (3602879701896397 / 72057594037927936)) (to_double x) \<longleftrightarrow>
         3602879701896397 / 72057594037927936 + 1 / 2 ^ 58 < x"
proof -
  let ?e = "float_exponent x"
  from assms have pos: "0 < x" by simp
  then have nz: "x \<noteq> 0" by simp
  have up: "x < 2 powi (?e + 1)" using float_exponent_upper [OF nz] pos by simp
  have e1: "- 5 \<le> ?e"
  proof (rule ccontr)
    assume "\<not> - 5 \<le> ?e"
    then have "?e + 1 \<le> - 5" by simp
    then have "(2::rat) powi (?e + 1) \<le> 2 powi (- 5)"
      by (intro power_int_increasing) simp_all
    with up assms(1) show False by (simp add: power_int_minus)
  qed
  with float_exponent_bounds [OF nz] pos have lo: "2 powi ?e \<le> x" by auto
  have e2: "?e \<le> - 5"
  proof (rule ccontr)
    assume "\<not> ?e \<le> - 5"
    then have "- 4 \<le> ?e" by simp
    then have "(2::rat) powi (- 4) \<le> 2 powi ?e"
      by (intro power_int_increasing) simp_all
    with lo assms(2) show False by (simp add: power_int_minus)
  qed
  from e1 e2 have e: "?e = - 5" by simp
  have u: "(2::rat) powi (?e - 52) = 1 / 2 ^ 57" by (simp add: e power_int_minus_divide)
  have d: "to_double x = Fin (of_int (round_half_even (x * 2 ^ 57)) / 2 ^ 57)"
    using nz by (simp add: to_double_def Let_def u) (simp add: e)
  have "3602879701896397 / 72057594037927936 < of_int (round_half_even (x * 2 ^ 57)) / (2 ^ 57 :: rat)
        \<longleftrightarrow> (of_int 7205759403792794 :: rat) < of_int (round_half_even (x * 2 ^ 57))"
    by (simp add: field_simps)
  also have "\<dots> \<longleftrightarrow> 7205759403792794 < round_half_even (x * 2 ^ 57)"
    by (simp only: of_int_less_iff)
  also have "\<dots> \<longleftrightarrow> of_int 7205759403792794 + 1 / 2 < x * 2 ^ 57"
    by (rule round_half_even_gt_even) simp
  also have "\<dots> \<longleftrightarrow> 3602879701896397 / 72057594037927936 + 1 / 2 ^ 58 < x"
    by (simp add: field_simps)
  finally show ?thesis by (simp add: d)
qed

lemma to_double_gt_threshold:
  "py_gt (to_double x) VOLTAGE_IMBALANCE_THRESHOLD \<longleftrightarrow>
     3602879701896397 / 72057594037927936 + 1 / 2 ^ 58 < x"
proof -
  consider "x \<le> 0" | "0 < x" "x < 1 / 32" | "1 / 32 \<le> x" "x < 1 / 16" | "1 / 16 \<le> x"
    by linarith
  then show ?thesis
  proof cases
    case 1
    then have "\<not> py_lt (Fin (3602879701896397 / 72057594037927936)) (to_double x)"
      by (rule to_double_nonpos) simp
    with 1 show ?thesis by (simp add: py_gt_def threshold_value)
  next
    case 2
    with to_double_small [OF 2] show ?thesis by (simp add: py_gt_def threshold_value)
  next
    case 3
    with to_double_middle [OF 3] show ?thesis by (simp add: py_gt_def threshold_value)
  next
    case 4
    with to_double_large [OF 4] show ?thesis by (simp add: py_gt_def threshold_value)
  qed
qed

lemma py_gt_py_sub_threshold:
  "py_gt (py_sub hi lo) VOLTAGE_IMBALANCE_THRESHOLD =
     (case hi of
        Fin a \<Rightarrow>
          (case lo of
             Fin b \<Rightarrow> 3602879701896397 / 72057594037927936 + 1 / 2 ^ 58 < a - b
           | NInf \<Rightarrow> True | PInf \<Rightarrow> False | NaN \<Rightarrow> False)
      | PInf \<Rightarrow> (case lo of Fin b \<Rightarrow> True | NInf \<Rightarrow> True | PInf \<Rightarrow> False | NaN \<Rightarrow> False)
      | NInf \<Rightarrow> False
      | NaN \<Rightarrow> False)"
proof (cases hi)
  case (Fin a)
  then show ?thesis
    by (cases lo) (simp_all add: to_double_gt_threshold, simp_all add: py_gt_def threshold_value)
next
  case PInf
  then show ?thesis
    by (cases lo) (simp_all add: py_gt_def threshold_value)
next
  case NInf
  then show ?thesis
    by (cases lo) (simp_all add: py_gt_def threshold_value)
next
  case NaN
  then show ?thesis
    by (simp add: py_gt_def threshold_value)
qed

subsection \<open>The order of floats\<close>

lemma py_lt_irrefl: "\<not> py_lt x x"
  by (cases x) simp_all

lemma py_lt_trans: "py_lt x y \<Longrightarrow> py_lt y z \<Longrightarrow> py_lt x z"
  by (cases x; cases y; cases z) simp_all

lemma py_lt_total: "x \<noteq> NaN \<Longrightarrow> y \<noteq> NaN \<Longrightarrow> \<not> py_lt x y \<Longrightarrow> \<not> py_lt y x \<Longrightarrow> x = y"
  by (cases x; cases y) auto

lemma py_lt_Fin_iff:
  "py_lt x (Fin b) = (case x of Fin a \<Rightarrow> a < b | NInf \<Rightarrow> True | _ \<Rightarrow> False)"
  by (cases x) simp_all

lemma py_gt_Fin_iff:
  "py_gt x (Fin b) = (case x of Fin a \<Rightarrow> b < a | PInf \<Rightarrow> True | _ \<Rightarrow> False)"
  by (cases x) (simp_all add: py_gt_def)

subsection \<open>max and min\<close>

text \<open>
  Whatever the list holds, \<^verbatim>\<open>max\<close> returns an element that no element exceeds; when
  no element is NaN this is the greatest element, whatever the order of the list.
\<close>

lemma foldl_max_mem:
  "foldl (\<lambda>maxval item. if py_gt item maxval then item else maxval) m xs \<in> insert m (set xs)"
  by (induction xs arbitrary: m) auto

lemma foldl_min_mem:
  "foldl (\<lambda>minval item. if py_lt item minval then item else minval) m xs \<in> insert m (set xs)"
  by (induction xs arbitrary: m) auto

lemma foldl_max_maximal:
  "\<forall>v\<in>S. \<not> py_gt v m \<Longrightarrow>
   \<forall>v\<in>S \<union> insert m (set xs).
     \<not> py_gt v (foldl (\<lambda>maxval item. if py_gt item maxval then item else maxval) m xs)"
proof (induction xs arbitrary: m S)
  case Nil
  then show ?case by (simp add: py_gt_def py_lt_irrefl)
next
  case (Cons x xs)
  let ?m' = "if py_gt x m then x else m"
  have "\<forall>v\<in>insert x (insert m S). \<not> py_gt v ?m'"
    using Cons.prems by (auto simp: py_gt_def py_lt_irrefl dest: py_lt_trans)
  from Cons.IH [OF this] show ?case
    by (auto simp: py_gt_def)
qed

lemma foldl_min_minimal:
  "\<forall>v\<in>S. \<not> py_lt v m \<Longrightarrow>
   \<forall>v\<in>S \<union> insert m (set xs).
     \<not> py_lt v (foldl (\<lambda>minval item. if py_lt item minval then item else minval) m xs)"
proof (induction xs arbitrary: m S)
  case Nil
  then show ?case by (simp add: py_lt_irrefl)
next
  case (Cons x xs)
  let ?m' = "if py_lt x m then x else m"
  have "\<forall>v\<in>insert x (insert m S). \<not> py_lt v ?m'"
    using Cons.prems by (auto simp: py_lt_irrefl dest: py_lt_trans)
  from Cons.IH [OF this] show ?case
    by auto
qed

lemma py_max_maximal:
  assumes "xs \<noteq> []"
  obtains hi where "py_max xs = Inr hi" "hi \<in> set xs" "\<forall>v\<in>set xs. \<not> py_gt v hi"
proof -
  from assms obtain x ys where xs: "xs = x # ys" by (cases xs) auto
  let ?hi = "foldl (\<lambda>maxval item. if py_gt item maxval then item else maxval) x ys"
  have "py_max xs = Inr ?hi" by (simp add: xs)
  moreover have "?hi \<in> set xs" using foldl_max_mem [of x ys] by (simp add: xs)
  moreover have "\<forall>v\<in>set xs. \<not> py_gt v ?hi"
    using foldl_max_maximal [of "{}" x ys] by (simp add: xs)
  ultimately show ?thesis using that by blast
qed

lemma py_min_minimal:
  assumes "xs \<noteq> []"
  obtains lo where "py_min xs = Inr lo" "lo \<in> set xs" "\<forall>v\<in>set xs. \<not> py_lt v lo"
proof -
  from assms obtain x ys where xs: "xs = x # ys" by (cases xs) auto
  let ?lo = "foldl (\<lambda>minval item. if py_lt item minval then item else minval) x ys"
  have "py_min xs = Inr ?lo" by (simp add: xs)
  moreover have "?lo \<in> set xs" using foldl_min_mem [of x ys] by (simp add: xs)
  moreover have "\<forall>v\<in>set xs. \<not> py_lt v ?lo"
    using foldl_min_minimal [of "{}" x ys] by (simp add: xs)
  ultimately show ?thesis using that by blast
qed

lemma py_max_finite:
  assumes "qs \<noteq> []"
  shows "py_max (map Fin qs) = Inr (Fin (Max (set qs)))"
proof -
  from assms have "map Fin qs \<noteq> []" by simp
  from py_max_maximal [OF this] obtain hi where
    hi: "py_max (map Fin qs) = Inr hi" "hi \<in> set (map Fin qs)"
      "\<forall>v\<in>set (map Fin qs). \<not> py_gt v hi" by blast
  from hi(2) obtain a where a: "hi = Fin a" "a \<in> set qs" by auto
  from hi(3) a(1) have "\<forall>q\<in>set qs. q \<le> a" by (auto simp: py_gt_def not_less)
  with a(2) have "Max (set qs) = a" by (intro Max_eqI) simp_all
  with hi(1) a(1) show ?thesis by simp
qed

lemma py_min_finite:
  assumes "qs \<noteq> []"
  shows "py_min (map Fin qs) = Inr (Fin (Min (set qs)))"
proof -
  from assms have "map Fin qs \<noteq> []" by simp
  from py_min_minimal [OF this] obtain lo where
    lo: "py_min (map Fin qs) = Inr lo" "lo \<in> set (map Fin qs)"
      "\<forall>v\<in>set (map Fin qs). \<not> py_lt v lo" by blast
  from lo(2) obtain b where b: "lo = Fin b" "b \<in> set qs" by auto
  from lo(3) b(1) have "\<forall>q\<in>set qs. b \<le> q" by (auto simp: not_less)
  with b(2) have "Min (set qs) = b" by (intro Min_eqI) simp_all
  with lo(1) b(1) show ?thesis by simp
qed

lemma py_max_perm:
  assumes "mset ys = mset xs" and "\<forall>v\<in>set xs. v \<noteq> NaN"
  shows "py_max ys = py_max xs"
proof (cases "xs = []")
  case True
  with assms(1) show ?thesis by simp
next
  case False
  from assms(1) have set_eq: "set ys = set xs" by (rule mset_eq_setD)
  with False have ne: "ys \<noteq> []" by auto
  from py_max_maximal [OF False] obtain hi where
    hi: "py_max xs = Inr hi" "hi \<in> set xs" "\<forall>v\<in>set xs. \<not> py_gt v hi" by blast
  from py_max_maximal [OF ne] obtain hi' where
    hi': "py_max ys = Inr hi'" "hi' \<in> set ys" "\<forall>v\<in>set ys. \<not> py_gt v hi'" by blast
  have "hi' \<noteq> NaN" "hi \<noteq> NaN" "\<not> py_lt hi' hi" "\<not> py_lt hi hi'"
    using hi hi' set_eq assms(2) by (auto simp: py_gt_def)
  then have "hi' = hi" by (rule py_lt_total)
  with hi hi' show ?thesis by simp
qed

lemma py_min_perm:
  assumes "mset ys = mset xs" and "\<forall>v\<in>set xs. v \<noteq> NaN"
  shows "py_min ys = py_min xs"
proof (cases "xs = []")
  case True
  with assms(1) show ?thesis by simp
next
  case False
  from assms(1) have set_eq: "set ys = set xs" by (rule mset_eq_setD)
  with False have ne: "ys \<noteq> []" by auto
  from py_min_minimal [OF False] obtain lo where
    lo: "py_min xs = Inr lo" "lo \<in> set xs" "\<forall>v\<in>set xs. \<not> py_lt v lo" by blast
  from py_min_minimal [OF ne] obtain lo' where
    lo': "py_min ys = Inr lo'" "lo' \<in> set ys" "\<forall>v\<in>set ys. \<not> py_lt v lo'" by blast
  have "lo' \<noteq> NaN" "lo \<noteq> NaN" "\<not> py_lt lo' lo" "\<not> py_lt lo lo'"
    using lo lo' set_eq assms(2) by auto
  then have "lo' = lo" by (rule py_lt_total)
  with lo lo' show ?thesis by simp
qed

section \<open>Properties of the methods\<close>

lemma calculate_state_of_health_returns:
  "\<exists>soh. calculate_state_of_health self = Inr soh"
  by (simp add: calculate_state_of_health_def py_truediv_def)

lemma detect_voltage_imbalance_eq:
  "detect_voltage_imbalance self =
     (case cells self of [] \<Rightarrow> Inr False
      | c # cs \<Rightarrow>
          Inr (py_gt (py_sub (foldl (\<lambda>maxval item. if py_gt item maxval then item else maxval)
                                (voltage c) (map voltage cs))
                             (foldl (\<lambda>minval item. if py_lt item minval then item else minval)
                                (voltage c) (map voltage cs)))
                     VOLTAGE_IMBALANCE_THRESHOLD))"
  by (simp add: detect_voltage_imbalance_def split: list.splits)

lemma detect_voltage_imbalance_returns:
  "\<exists>imbalance. detect_voltage_imbalance self = Inr imbalance"
  by (cases "cells self") (auto simp: detect_voltage_imbalance_eq)

lemma overheating_loop_iff:
  "overheating_loop cs = (\<exists>c\<in>set cs. py_gt (temperature c) OVERHEATING_THRESHOLD)"
  by (induction cs) auto

lemma detect_overheating_iff:
  "detect_overheating self = (\<exists>c\<in>set (cells self). py_gt (temperature c) OVERHEATING_THRESHOLD)"
  by (cases "cells self = []") (simp_all add: detect_overheating_def overheating_loop_iff)

lemma detect_anomalies_eq:
  "detect_voltage_imbalance self = Inr imbalance \<Longrightarrow>
   detect_anomalies self soh =
     Inr ((if imbalance then [''Voltage imbalance detected''] else []) @
          (if detect_overheating self then [''Overheating detected''] else []) @
          (if detect_low_health self soh then [''Low State of Health''] else []))"
  by (simp add: detect_anomalies_def)

lemma detect_anomalies_subseq:
  "\<exists>anomalies.
     detect_anomalies self soh = Inr anomalies \<and>
     subseq anomalies [''Voltage imbalance detected'', ''Overheating detected'', ''Low State of Health''] \<and>
     distinct anomalies"
proof -
  obtain imbalance where "detect_voltage_imbalance self = Inr imbalance"
    using detect_voltage_imbalance_returns by blast
  from detect_anomalies_eq [OF this, of soh] show ?thesis
    by simp
qed

lemma generate_report_eq:
  "\<exists>soh anomalies.
     calculate_state_of_health self = Inr soh \<and>
     detect_anomalies self soh = Inr anomalies \<and>
     generate_report self =
       Inr [(''battery_soh'', PyFloat soh),
            (''cycle_count'', PyInt (cycle_count self)),
            (''anomalies'', PyStrList anomalies)]"
proof -
  obtain soh where soh: "calculate_state_of_health self = Inr soh"
    using calculate_state_of_health_returns by blast
  obtain imbalance where "detect_voltage_imbalance self = Inr imbalance"
    using detect_voltage_imbalance_returns by blast
  from detect_anomalies_eq [OF this, of soh]
  obtain anomalies where an: "detect_anomalies self soh = Inr anomalies"
    by blast
  with soh show ?thesis
    by (simp add: generate_report_def)
qed

text \<open>Each method reads only some attributes of the object, and never the stored dictionary.\<close>

lemma calculate_state_of_health_cong:
  "nominal_capacity s' = nominal_capacity s \<Longrightarrow> current_capacity s' = current_capacity s \<Longrightarrow>
   calculate_state_of_health s' = calculate_state_of_health s"
  by (simp add: calculate_state_of_health_def)

lemma detect_voltage_imbalance_cong:
  "cells s' = cells s \<Longrightarrow> detect_voltage_imbalance s' = detect_voltage_imbalance s"
  by (simp add: detect_voltage_imbalance_def)

lemma detect_voltage_imbalance_perm:
  assumes "mset (cells s') = mset (cells s)" and "\<forall>c\<in>set (cells s). voltage c \<noteq> NaN"
  shows "detect_voltage_imbalance s' = detect_voltage_imbalance s"
proof -
  have m: "mset (map voltage (cells s')) = mset (map voltage (cells s))"
    using assms(1) by (metis mset_map)
  have n: "\<forall>v\<in>set (map voltage (cells s)). v \<noteq> NaN"
    using assms(2) by auto
  have e: "cells s' = [] \<longleftrightarrow> cells s = []"
    using assms(1) by (metis mset_zero_iff)
  show ?thesis
    using py_max_perm [OF m n] py_min_perm [OF m n] e
    by (simp add: detect_voltage_imbalance_def Let_def split: sum.splits)
qed

lemma detect_overheating_cong:
  "set (cells s') = set (cells s) \<Longrightarrow> detect_overheating s' = detect_overheating s"
  by (simp add: detect_overheating_iff)

lemma detect_anomalies_cong:
  "detect_voltage_imbalance s' = detect_voltage_imbalance s \<Longrightarrow>
   detect_overheating s' = detect_overheating s \<Longrightarrow>
   detect_anomalies s' soh = detect_anomalies s soh"
  by (simp add: detect_anomalies_def detect_low_health_def split: sum.splits)

lemma generate_report_cong:
  "calculate_state_of_health s' = calculate_state_of_health s \<Longrightarrow>
   (\<And>soh. detect_anomalies s' soh = detect_anomalies s soh) \<Longrightarrow>
   cycle_count s' = cycle_count s \<Longrightarrow>
   generate_report s' = generate_report s"
  by (simp add: generate_report_def split: sum.splits)

section \<open>The test suite, evaluated on the model\<close>

text \<open>
  Cases of \<^verbatim>\<open>tests/test_battery_report.py\<close>; a decimal literal such as
  \<^verbatim>\<open>4.05\<close> is the float \<open>to_double (405 / 100)\<close>.
\<close>

lemma test_calculate_state_of_health:
  "calculate_state_of_health (BatteryReport base_data) = Inr (Fin 90)"
  "calculate_state_of_health
     (BatteryReport (base_data\<lparr>get_current_capacity_kwh := Some (Fin 60)\<rparr>)) = Inr (Fin 100)"
  "calculate_state_of_health
     (BatteryReport (base_data\<lparr>get_current_capacity_kwh := Some (Fin 45)\<rparr>)) = Inr (Fin 75)"
  "calculate_state_of_health
     (BatteryReport (base_data\<lparr>get_nominal_capacity_kwh := Some (Fin 0)\<rparr>)) = Inr (Fin 0)"
  by code_simp+

lemma test_detect_voltage_imbalance:
  "detect_voltage_imbalance (BatteryReport base_data) = Inr False"
  "detect_voltage_imbalance
     (BatteryReport (base_data
        \<lparr>get_cells := Some [\<lparr>cell_id = 0, voltage = to_double (400 / 100), temperature = Fin 30\<rparr>,
                            \<lparr>cell_id = 1, voltage = to_double (402 / 100), temperature = Fin 31\<rparr>,
                            \<lparr>cell_id = 2, voltage = to_double (403 / 100), temperature = Fin 32\<rparr>]\<rparr>))
     = Inr False"
  "detect_voltage_imbalance
     (BatteryReport (base_data
        \<lparr>get_cells := Some [\<lparr>cell_id = 0, voltage = to_double (390 / 100), temperature = Fin 30\<rparr>,
                            \<lparr>cell_id = 1, voltage = to_double (400 / 100), temperature = Fin 31\<rparr>,
                            \<lparr>cell_id = 2, voltage = to_double (410 / 100), temperature = Fin 32\<rparr>]\<rparr>))
     = Inr True"
  "detect_voltage_imbalance
     (BatteryReport (base_data
        \<lparr>get_cells := Some [\<lparr>cell_id = 0, voltage = to_double (400 / 100), temperature = Fin 30\<rparr>,
                            \<lparr>cell_id = 1, voltage = to_double (405 / 100), temperature = Fin 31\<rparr>]\<rparr>))
     = Inr False"
  "detect_voltage_imbalance
     (BatteryReport (base_data
        \<lparr>get_cells := Some [\<lparr>cell_id = 0, voltage = to_double (400 / 100), temperature = Fin 30\<rparr>,
                            \<lparr>cell_id = 1, voltage = to_double (406 / 100), temperature = Fin 31\<rparr>]\<rparr>))
     = Inr True"
  by code_simp+

lemma test_detect_low_health_exact_threshold:
  "calculate_state_of_health
     (BatteryReport (base_data\<lparr>get_current_capacity_kwh := Some (Fin 48)\<rparr>)) = Inr (Fin 80)"
  "\<not> detect_low_health
       (BatteryReport (base_data\<lparr>get_current_capacity_kwh := Some (Fin 48)\<rparr>)) (Fin 80)"
  by code_simp+

lemma test_generate_report_with_anomalies:
  "generate_report
     (BatteryReport (base_data
        \<lparr>get_cells := Some [\<lparr>cell_id = 0, voltage = to_double (380 / 100), temperature = Fin 30\<rparr>,
                            \<lparr>cell_id = 1, voltage = to_double (415 / 100), temperature = Fin 32\<rparr>]\<rparr>)) =
   Inr [(''battery_soh'', PyFloat (Fin 90)), (''cycle_count'', PyInt 300),
        (''anomalies'', PyStrList [''Voltage imbalance detected''])]"
  by code_simp

section \<open>The claims\<close>

text \<open>
  C1. For every diagnostic snapshot \<open>d\<close>, \<^verbatim>\<open>generate_report\<close> returns (it does
  not raise) a dictionary with exactly the three entries \<^verbatim>\<open>battery_soh\<close>,
  \<^verbatim>\<open>cycle_count\<close> and \<^verbatim>\<open>anomalies\<close>: the first holds the value
  \<open>soh\<close> that \<^verbatim>\<open>calculate_state_of_health\<close> returns for the snapshot, the second
  the snapshot's cycle count as \<^verbatim>\<open>__init__\<close> read it, and the third the list that
  \<^verbatim>\<open>detect_anomalies\<close> returns for that same \<open>soh\<close>.
\<close>

theorem generate_report_assembles:
  "\<exists>soh anomalies.
     calculate_state_of_health (BatteryReport d) = Inr soh \<and>
     detect_anomalies (BatteryReport d) soh = Inr anomalies \<and>
     generate_report (BatteryReport d) =
       Inr [(''battery_soh'', PyFloat soh),
            (''cycle_count'', PyInt (dict_get (get_cycle_count d) 0)),
            (''anomalies'', PyStrList anomalies)]"
proof -
  obtain soh where soh: "calculate_state_of_health (BatteryReport d) = Inr soh"
    using calculate_state_of_health_returns by blast
  obtain imbalance where "detect_voltage_imbalance (BatteryReport d) = Inr imbalance"
    using detect_voltage_imbalance_returns by blast
  from detect_anomalies_eq [OF this, of soh]
  obtain anomalies where an: "detect_anomalies (BatteryReport d) soh = Inr anomalies"
    by blast
  have "cycle_count (BatteryReport d) = dict_get (get_cycle_count d) 0"
    by (simp add: BatteryReport_def)
  with soh an show ?thesis
    by (simp add: generate_report_def)
qed

theorem generate_report_assembles_witness:
  "calculate_state_of_health (BatteryReport base_data) = Inr (Fin 90) \<and>
   detect_anomalies (BatteryReport base_data) (Fin 90) = Inr [] \<and>
   generate_report (BatteryReport base_data) =
     Inr [(''battery_soh'', PyFloat (Fin 90)), (''cycle_count'', PyInt 300),
          (''anomalies'', PyStrList [])]"
proof -
  have soh: "calculate_state_of_health (BatteryReport base_data) = Inr (Fin 90)"
    by code_simp
  have an: "detect_anomalies (BatteryReport base_data) (Fin 90) = Inr []"
    by code_simp
  have cc: "dict_get (get_cycle_count base_data) 0 = 300"
    by (simp add: base_data_def dict_get_def)
  from generate_report_assembles [of base_data] soh an cc show ?thesis
    by auto
qed

text \<open>
  C2. \<^verbatim>\<open>calculate_state_of_health\<close> returns \<^verbatim>\<open>0.0\<close> when the nominal capacity
  equals zero, whatever the current capacity is; the division is not reached, so nothing is
  raised. Otherwise the division does not raise and the result is
  \<^verbatim>\<open>round((current / nominal) * 100, 2)\<close>, with no clamping applied to it; when the
  percentage is a finite number \<open>p\<close>, that result is the float of a decimal \<open>k / 100\<close>
  within half a hundredth of \<open>p\<close>. The witness evaluates a zero nominal capacity, the
  capacities 50.0 of 60.0 (83.33), two results outside the range from 0 to 100 (150.0 and
  -50.0) that are returned as they are, and the rounding at 45.0 of 60.0.
\<close>

theorem calculate_state_of_health_policy:
  "(nominal_capacity self = Fin 0 \<longrightarrow> calculate_state_of_health self = Inr (Fin 0)) \<and>
   (nominal_capacity self \<noteq> Fin 0 \<longrightarrow>
      py_truediv (current_capacity self) (nominal_capacity self) =
        Inr (float_div (current_capacity self) (nominal_capacity self)) \<and>
      calculate_state_of_health self =
        Inr (py_round (py_mul (float_div (current_capacity self) (nominal_capacity self))
                              (Fin 100)) 2) \<and>
      (\<forall>p. py_mul (float_div (current_capacity self) (nominal_capacity self)) (Fin 100) = Fin p \<longrightarrow>
         (\<exists>k::int. \<bar>of_int k / 100 - p\<bar> \<le> 1 / 200 \<and>
            calculate_state_of_health self = Inr (to_double (of_int k / 100)))))"
  using py_round_two_places
  by (auto simp: calculate_state_of_health_def py_truediv_def py_eq_def simp del: py_round.simps)

theorem calculate_state_of_health_policy_witness:
  "calculate_state_of_health
     (BatteryReport (base_data\<lparr>get_nominal_capacity_kwh := Some (Fin 0)\<rparr>)) = Inr (Fin 0) \<and>
   calculate_state_of_health
     (BatteryReport (base_data\<lparr>get_current_capacity_kwh := Some (Fin 50)\<rparr>)) =
     Inr (to_double (8333 / 100)) \<and>
   calculate_state_of_health
     (BatteryReport (base_data\<lparr>get_current_capacity_kwh := Some (Fin 90)\<rparr>)) = Inr (Fin 150) \<and>
   calculate_state_of_health
     (BatteryReport (base_data\<lparr>get_current_capacity_kwh := Some (Fin (- 30))\<rparr>)) = Inr (Fin (- 50)) \<and>
   (\<exists>k::int. \<bar>of_int k / 100 - (75::rat)\<bar> \<le> 1 / 200 \<and>
      calculate_state_of_health
        (BatteryReport (base_data\<lparr>get_current_capacity_kwh := Some (Fin 45)\<rparr>)) =
        Inr (to_double (of_int k / 100)))"
proof -
  let ?zero = "BatteryReport (base_data\<lparr>get_nominal_capacity_kwh := Some (Fin 0)\<rparr>)"
  let ?third = "BatteryReport (base_data\<lparr>get_current_capacity_kwh := Some (Fin 50)\<rparr>)"
  let ?over = "BatteryReport (base_data\<lparr>get_current_capacity_kwh := Some (Fin 90)\<rparr>)"
  let ?neg = "BatteryReport (base_data\<lparr>get_current_capacity_kwh := Some (Fin (- 30))\<rparr>)"
  let ?low = "BatteryReport (base_data\<lparr>get_current_capacity_kwh := Some (Fin 45)\<rparr>)"
  have "nominal_capacity ?zero = Fin 0"
    by (simp add: BatteryReport_def base_data_def dict_get_def)
  with calculate_state_of_health_policy [of ?zero]
  have zero: "calculate_state_of_health ?zero = Inr (Fin 0)" by blast
  have "nominal_capacity ?third \<noteq> Fin 0"
    by (simp add: BatteryReport_def base_data_def dict_get_def)
  with calculate_state_of_health_policy [of ?third]
  have "calculate_state_of_health ?third =
     Inr (py_round (py_mul (float_div (current_capacity ?third) (nominal_capacity ?third)) (Fin 100)) 2)"
    by blast
  also have "\<dots> = Inr (to_double (8333 / 100))" by code_simp
  finally have third: "calculate_state_of_health ?third = Inr (to_double (8333 / 100))" .
  have "nominal_capacity ?over \<noteq> Fin 0"
    by (simp add: BatteryReport_def base_data_def dict_get_def)
  with calculate_state_of_health_policy [of ?over]
  have "calculate_state_of_health ?over =
     Inr (py_round (py_mul (float_div (current_capacity ?over) (nominal_capacity ?over)) (Fin 100)) 2)"
    by blast
  also have "\<dots> = Inr (Fin 150)" by code_simp
  finally have over: "calculate_state_of_health ?over = Inr (Fin 150)" .
  have "nominal_capacity ?neg \<noteq> Fin 0"
    by (simp add: BatteryReport_def base_data_def dict_get_def)
  with calculate_state_of_health_policy [of ?neg]
  have "calculate_state_of_health ?neg =
     Inr (py_round (py_mul (float_div (current_capacity ?neg) (nominal_capacity ?neg)) (Fin 100)) 2)"
    by blast
  also have "\<dots> = Inr (Fin (- 50))" by code_simp
  finally have neg: "calculate_state_of_health ?neg = Inr (Fin (- 50))" .
  have "nominal_capacity ?low \<noteq> Fin 0"
    by (simp add: BatteryReport_def base_data_def dict_get_def)
  with calculate_state_of_health_policy [of ?low]
  have "\<forall>p. py_mul (float_div (current_capacity ?low) (nominal_capacity ?low)) (Fin 100) = Fin p \<longrightarrow>
         (\<exists>k::int. \<bar>of_int k / 100 - p\<bar> \<le> 1 / 200 \<and>
            calculate_state_of_health ?low = Inr (to_double (of_int k / 100)))"
    by (rule conjunct2 [THEN mp, THEN conjunct2, THEN conjunct2])
  then have "py_mul (float_div (current_capacity ?low) (nominal_capacity ?low)) (Fin 100) = Fin 75 \<longrightarrow>
         (\<exists>k::int. \<bar>of_int k / 100 - (75::rat)\<bar> \<le> 1 / 200 \<and>
            calculate_state_of_health ?low = Inr (to_double (of_int k / 100)))"
    by (rule spec)
  moreover have "py_mul (float_div (current_capacity ?low) (nominal_capacity ?low)) (Fin 100) = Fin 75"
    by code_simp
  ultimately have low: "\<exists>k::int. \<bar>of_int k / 100 - (75::rat)\<bar> \<le> 1 / 200 \<and>
      calculate_state_of_health ?low = Inr (to_double (of_int k / 100))"
    by (rule mp)
  from zero third over neg low show ?thesis by blast
qed

text \<open>
  C3. \<^verbatim>\<open>detect_anomalies\<close> returns, for every analyzer and every SoH value, the
  labels of the three detectors in the fixed order voltage imbalance, overheating, low
  health, keeping exactly the labels whose detector is true: all of them when all
  conditions hold, the empty list when none holds.
\<close>

theorem detect_anomalies_fixed_order:
  "\<exists>imbalance.
     detect_voltage_imbalance self = Inr imbalance \<and>
     detect_anomalies self soh =
       Inr (map snd (filter fst
              [(imbalance, ''Voltage imbalance detected''),
               (detect_overheating self, ''Overheating detected''),
               (detect_low_health self soh, ''Low State of Health'')]))"
proof -
  obtain imbalance where im: "detect_voltage_imbalance self = Inr imbalance"
    using detect_voltage_imbalance_returns by blast
  from detect_anomalies_eq [OF this, of soh] im show ?thesis
    by auto
qed

theorem detect_anomalies_fixed_order_witness:
  "detect_anomalies
     (BatteryReport (base_data
        \<lparr>get_cells := Some [\<lparr>cell_id = 0, voltage = to_double (380 / 100), temperature = Fin 48\<rparr>,
                            \<lparr>cell_id = 1, voltage = to_double (420 / 100), temperature = Fin 32\<rparr>],
         get_current_capacity_kwh := Some (Fin 45)\<rparr>))
     (Fin 75) =
   Inr [''Voltage imbalance detected'', ''Overheating detected'', ''Low State of Health'']"
proof -
  let ?self = "BatteryReport (base_data
        \<lparr>get_cells := Some [\<lparr>cell_id = 0, voltage = to_double (380 / 100), temperature = Fin 48\<rparr>,
                            \<lparr>cell_id = 1, voltage = to_double (420 / 100), temperature = Fin 32\<rparr>],
         get_current_capacity_kwh := Some (Fin 45)\<rparr>)"
  have im: "detect_voltage_imbalance ?self = Inr True" by code_simp
  have oh: "detect_overheating ?self" by code_simp
  have lh: "detect_low_health ?self (Fin 75)" by code_simp
  from detect_anomalies_fixed_order [of ?self "Fin 75"] im oh lh show ?thesis
    by auto
qed

text \<open>
  C4. \<^verbatim>\<open>detect_voltage_imbalance\<close> returns false when there are no cells. With at
  least one cell, \<^verbatim>\<open>max\<close> and \<^verbatim>\<open>min\<close> of the voltages do not raise; they
  return a voltage \<open>hi\<close> of some cell that no cell exceeds and a voltage \<open>lo\<close> of
  some cell that no cell is below, and the result is true if and only if the float
  \<open>hi - lo\<close> is strictly greater than the float \<^verbatim>\<open>0.05\<close>: a spread equal to the
  threshold is not an imbalance. The float difference and the comparison are spelled
  out: for finite \<open>hi = a\<close> and \<open>lo = b\<close> the result is true exactly when the exact
  difference \<open>a - b\<close> lies above the threshold by more than half a unit in the last
  place, which is when \<open>a - b\<close> rounds to a float above \<^verbatim>\<open>0.05\<close>; an infinite
  spread is an imbalance and a NaN spread is not. In particular, when all voltages are
  finite numbers, the result is that comparison for the greatest voltage minus the least
  one. The witness evaluates the empty list, the fixture with all cells at 4.0 (spread 0),
  the voltages 4.00 and 4.05 (the float spread is below the threshold), 4.00 and 4.06,
  the voltages 3.90, 4.00 and 4.10, and the voltages 0.05 and 0.1, whose spread is
  exactly the threshold (no imbalance).
\<close>

theorem detect_voltage_imbalance_spread:
  "(cells self = [] \<longrightarrow> detect_voltage_imbalance self = Inr False) \<and>
   (cells self \<noteq> [] \<longrightarrow>
      (\<exists>hi lo.
         py_max (map voltage (cells self)) = Inr hi \<and>
         py_min (map voltage (cells self)) = Inr lo \<and>
         hi \<in> voltage ` set (cells self) \<and> lo \<in> voltage ` set (cells self) \<and>
         (\<forall>c\<in>set (cells self). \<not> py_gt (voltage c) hi \<and> \<not> py_lt (voltage c) lo) \<and>
         detect_voltage_imbalance self = Inr (py_gt (py_sub hi lo) VOLTAGE_IMBALANCE_THRESHOLD) \<and>
         (py_sub hi lo = VOLTAGE_IMBALANCE_THRESHOLD \<longrightarrow> detect_voltage_imbalance self = Inr False) \<and>
         detect_voltage_imbalance self =
           Inr (case hi of
                  Fin a \<Rightarrow>
                    (case lo of
                       Fin b \<Rightarrow> 3602879701896397 / 72057594037927936 + 1 / 2 ^ 58 < a - b
                     | NInf \<Rightarrow> True | PInf \<Rightarrow> False | NaN \<Rightarrow> False)
                | PInf \<Rightarrow> (case lo of Fin b \<Rightarrow> True | NInf \<Rightarrow> True | PInf \<Rightarrow> False | NaN \<Rightarrow> False)
                | NInf \<Rightarrow> False
                | NaN \<Rightarrow> False))) \<and>
   (\<forall>qs. qs \<noteq> [] \<and> map voltage (cells self) = map Fin qs \<longrightarrow>
      detect_voltage_imbalance self =
        Inr (3602879701896397 / 72057594037927936 + 1 / 2 ^ 58 < Max (set qs) - Min (set qs)))"
proof (intro conjI impI allI)
  assume "cells self = []"
  then show "detect_voltage_imbalance self = Inr False"
    by (simp add: detect_voltage_imbalance_def)
next
  assume ne0: "cells self \<noteq> []"
  then have ne: "map voltage (cells self) \<noteq> []" by simp
  from py_max_maximal [OF ne] obtain hi where
    hi: "py_max (map voltage (cells self)) = Inr hi" "hi \<in> set (map voltage (cells self))"
      "\<forall>v\<in>set (map voltage (cells self)). \<not> py_gt v hi" by blast
  from py_min_minimal [OF ne] obtain lo where
    lo: "py_min (map voltage (cells self)) = Inr lo" "lo \<in> set (map voltage (cells self))"
      "\<forall>v\<in>set (map voltage (cells self)). \<not> py_lt v lo" by blast
  have res: "detect_voltage_imbalance self = Inr (py_gt (py_sub hi lo) VOLTAGE_IMBALANCE_THRESHOLD)"
    using ne0 hi(1) lo(1) by (simp add: detect_voltage_imbalance_def)
  have eq: "py_sub hi lo = VOLTAGE_IMBALANCE_THRESHOLD \<longrightarrow> detect_voltage_imbalance self = Inr False"
    using res by (simp add: py_gt_def py_lt_irrefl)
  have tab: "detect_voltage_imbalance self =
           Inr (case hi of
                  Fin a \<Rightarrow>
                    (case lo of
                       Fin b \<Rightarrow> 3602879701896397 / 72057594037927936 + 1 / 2 ^ 58 < a - b
                     | NInf \<Rightarrow> True | PInf \<Rightarrow> False | NaN \<Rightarrow> False)
                | PInf \<Rightarrow> (case lo of Fin b \<Rightarrow> True | NInf \<Rightarrow> True | PInf \<Rightarrow> False | NaN \<Rightarrow> False)
                | NInf \<Rightarrow> False
                | NaN \<Rightarrow> False)"
    using res by (simp only: py_gt_py_sub_threshold)
  have mem: "hi \<in> voltage ` set (cells self)" "lo \<in> voltage ` set (cells self)"
    using hi(2) lo(2) by simp_all
  have ext: "\<forall>c\<in>set (cells self). \<not> py_gt (voltage c) hi \<and> \<not> py_lt (voltage c) lo"
    using hi(3) lo(3) by simp
  from hi(1) lo(1) mem ext res eq tab
  show "\<exists>hi lo.
         py_max (map voltage (cells self)) = Inr hi \<and>
         py_min (map voltage (cells self)) = Inr lo \<and>
         hi \<in> voltage ` set (cells self) \<and> lo \<in> voltage ` set (cells self) \<and>
         (\<forall>c\<in>set (cells self). \<not> py_gt (voltage c) hi \<and> \<not> py_lt (voltage c) lo) \<and>
         detect_voltage_imbalance self = Inr (py_gt (py_sub hi lo) VOLTAGE_IMBALANCE_THRESHOLD) \<and>
         (py_sub hi lo = VOLTAGE_IMBALANCE_THRESHOLD \<longrightarrow> detect_voltage_imbalance self = Inr False) \<and>
         detect_voltage_imbalance self =
           Inr (case hi of
                  Fin a \<Rightarrow>
                    (case lo of
                       Fin b \<Rightarrow> 3602879701896397 / 72057594037927936 + 1 / 2 ^ 58 < a - b
                     | NInf \<Rightarrow> True | PInf \<Rightarrow> False | NaN \<Rightarrow> False)
                | PInf \<Rightarrow> (case lo of Fin b \<Rightarrow> True | NInf \<Rightarrow> True | PInf \<Rightarrow> False | NaN \<Rightarrow> False)
                | NInf \<Rightarrow> False
                | NaN \<Rightarrow> False)"
    by blast
next
  fix qs :: "rat list"
  assume a: "qs \<noteq> [] \<and> map voltage (cells self) = map Fin qs"
  then have ne: "cells self \<noteq> []" by auto
  from a have "py_max (map voltage (cells self)) = Inr (Fin (Max (set qs)))"
    "py_min (map voltage (cells self)) = Inr (Fin (Min (set qs)))"
    by (simp_all add: py_max_finite py_min_finite)
  with ne have "detect_voltage_imbalance self =
      Inr (py_gt (py_sub (Fin (Max (set qs))) (Fin (Min (set qs)))) VOLTAGE_IMBALANCE_THRESHOLD)"
    by (simp add: detect_voltage_imbalance_def)
  then show "detect_voltage_imbalance self =
        Inr (3602879701896397 / 72057594037927936 + 1 / 2 ^ 58 < Max (set qs) - Min (set qs))"
    by (simp only: py_gt_py_sub_threshold pyfloat.case)
qed

theorem detect_voltage_imbalance_spread_witness:
  "detect_voltage_imbalance (BatteryReport (base_data\<lparr>get_cells := Some []\<rparr>)) = Inr False \<and>
   detect_voltage_imbalance (BatteryReport base_data) = Inr False \<and>
   detect_voltage_imbalance
     (BatteryReport (base_data
        \<lparr>get_cells := Some [\<lparr>cell_id = 0, voltage = to_double (400 / 100), temperature = Fin 30\<rparr>,
                            \<lparr>cell_id = 1, voltage = to_double (405 / 100), temperature = Fin 31\<rparr>]\<rparr>))
     = Inr False \<and>
   detect_voltage_imbalance
     (BatteryReport (base_data
        \<lparr>get_cells := Some [\<lparr>cell_id = 0, voltage = to_double (400 / 100), temperature = Fin 30\<rparr>,
                            \<lparr>cell_id = 1, voltage = to_double (406 / 100), temperature = Fin 31\<rparr>]\<rparr>))
     = Inr True \<and>
   detect_voltage_imbalance
     (BatteryReport (base_data
        \<lparr>get_cells := Some [\<lparr>cell_id = 0, voltage = to_double (390 / 100), temperature = Fin 30\<rparr>,
                            \<lparr>cell_id = 1, voltage = to_double (400 / 100), temperature = Fin 31\<rparr>,
                            \<lparr>cell_id = 2, voltage = to_double (410 / 100), temperature = Fin 32\<rparr>]\<rparr>))
     = Inr True \<and>
   detect_voltage_imbalance
     (BatteryReport (base_data
        \<lparr>get_cells := Some [\<lparr>cell_id = 0, voltage = to_double (5 / 100), temperature = Fin 30\<rparr>,
                            \<lparr>cell_id = 1, voltage = to_double (10 / 100), temperature = Fin 31\<rparr>]\<rparr>))
     = Inr False"
proof -
  let ?empty = "BatteryReport (base_data\<lparr>get_cells := Some []\<rparr>)"
  have "cells ?empty = []" by code_simp
  then have empty: "detect_voltage_imbalance ?empty = Inr False"
    by (rule detect_voltage_imbalance_spread [THEN conjunct1, THEN mp])
  have v_base: "map voltage (cells (BatteryReport base_data)) = map Fin [4, 4, 4]" by code_simp
  have "detect_voltage_imbalance (BatteryReport base_data) =
      Inr (3602879701896397 / 72057594037927936 + 1 / 2 ^ 58 < Max (set [4, 4, 4 :: rat]) - Min (set [4, 4, 4 :: rat]))"
    by (rule detect_voltage_imbalance_spread [THEN conjunct2, THEN conjunct2, THEN spec, THEN mp])
       (intro conjI, simp, rule v_base)
  then have base: "detect_voltage_imbalance (BatteryReport base_data) = Inr False" by simp
  let ?near = "BatteryReport (base_data
        \<lparr>get_cells := Some [\<lparr>cell_id = 0, voltage = to_double (400 / 100), temperature = Fin 30\<rparr>,
                            \<lparr>cell_id = 1, voltage = to_double (405 / 100), temperature = Fin 31\<rparr>]\<rparr>)"
  have v_near: "map voltage (cells ?near) = map Fin [4, 4559894622712627 / 1125899906842624 :: rat]" by code_simp
  have "detect_voltage_imbalance ?near =
      Inr (3602879701896397 / 72057594037927936 + 1 / 2 ^ 58 < Max (set [4, 4559894622712627 / 1125899906842624 :: rat]) - Min (set [4, 4559894622712627 / 1125899906842624 :: rat]))"
    by (rule detect_voltage_imbalance_spread [THEN conjunct2, THEN conjunct2, THEN spec, THEN mp])
       (intro conjI, simp, rule v_near)
  then have near: "detect_voltage_imbalance ?near = Inr False" by simp
  let ?above = "BatteryReport (base_data
        \<lparr>get_cells := Some [\<lparr>cell_id = 0, voltage = to_double (400 / 100), temperature = Fin 30\<rparr>,
                            \<lparr>cell_id = 1, voltage = to_double (406 / 100), temperature = Fin 31\<rparr>]\<rparr>)"
  have v_above: "map voltage (cells ?above) = map Fin [4, 4571153621781053 / 1125899906842624 :: rat]" by code_simp
  have "detect_voltage_imbalance ?above =
      Inr (3602879701896397 / 72057594037927936 + 1 / 2 ^ 58 < Max (set [4, 4571153621781053 / 1125899906842624 :: rat]) - Min (set [4, 4571153621781053 / 1125899906842624 :: rat]))"
    by (rule detect_voltage_imbalance_spread [THEN conjunct2, THEN conjunct2, THEN spec, THEN mp])
       (intro conjI, simp, rule v_above)
  then have above: "detect_voltage_imbalance ?above = Inr True" by simp
  let ?wide = "BatteryReport (base_data
        \<lparr>get_cells := Some [\<lparr>cell_id = 0, voltage = to_double (390 / 100), temperature = Fin 30\<rparr>,
                            \<lparr>cell_id = 1, voltage = to_double (400 / 100), temperature = Fin 31\<rparr>,
                            \<lparr>cell_id = 2, voltage = to_double (410 / 100), temperature = Fin 32\<rparr>]\<rparr>)"
  have v_wide: "map voltage (cells ?wide) = map Fin [8782019273372467 / 2251799813685248, 4, 2308094809027379 / 562949953421312 :: rat]" by code_simp
  have "detect_voltage_imbalance ?wide =
      Inr (3602879701896397 / 72057594037927936 + 1 / 2 ^ 58 < Max (set [8782019273372467 / 2251799813685248, 4, 2308094809027379 / 562949953421312 :: rat]) - Min (set [8782019273372467 / 2251799813685248, 4, 2308094809027379 / 562949953421312 :: rat]))"
    by (rule detect_voltage_imbalance_spread [THEN conjunct2, THEN conjunct2, THEN spec, THEN mp])
       (intro conjI, simp, rule v_wide)
  then have wide: "detect_voltage_imbalance ?wide = Inr True" by simp
  let ?exact = "BatteryReport (base_data
        \<lparr>get_cells := Some [\<lparr>cell_id = 0, voltage = to_double (5 / 100), temperature = Fin 30\<rparr>,
                            \<lparr>cell_id = 1, voltage = to_double (10 / 100), temperature = Fin 31\<rparr>]\<rparr>)"
  have v_exact: "map voltage (cells ?exact) = map Fin [3602879701896397 / 72057594037927936, 3602879701896397 / 36028797018963968 :: rat]" by code_simp
  have "detect_voltage_imbalance ?exact =
      Inr (3602879701896397 / 72057594037927936 + 1 / 2 ^ 58 < Max (set [3602879701896397 / 72057594037927936, 3602879701896397 / 36028797018963968 :: rat]) - Min (set [3602879701896397 / 72057594037927936, 3602879701896397 / 36028797018963968 :: rat]))"
    by (rule detect_voltage_imbalance_spread [THEN conjunct2, THEN conjunct2, THEN spec, THEN mp])
       (intro conjI, simp, rule v_exact)
  then have exact: "detect_voltage_imbalance ?exact = Inr False" by simp
  show ?thesis
    by (intro conjI) (rule empty base near above wide exact)+
qed

text \<open>
  C5. \<^verbatim>\<open>detect_overheating\<close> returns false when there are no cells, and otherwise
  true if and only if the temperature of some cell is strictly greater than
  \<^verbatim>\<open>45.0\<close>: a finite temperature \<open>t\<close> counts when \<open>45 < t\<close>, so exactly 45.0 does
  not. The witness evaluates the empty list, one cell at exactly 45.0, and a cell at 45.1.
\<close>

theorem detect_overheating_any_cell:
  "(cells self = [] \<longrightarrow> \<not> detect_overheating self) \<and>
   detect_overheating self =
     (\<exists>c\<in>set (cells self).
        case temperature c of Fin t \<Rightarrow> 45 < t | PInf \<Rightarrow> True | NInf \<Rightarrow> False | NaN \<Rightarrow> False)"
  by (cases "cells self = []")
     (simp_all add: detect_overheating_def overheating_loop_iff OVERHEATING_THRESHOLD_def
        py_gt_Fin_iff)

theorem detect_overheating_any_cell_witness:
  "\<not> detect_overheating (BatteryReport (base_data\<lparr>get_cells := Some []\<rparr>)) \<and>
   \<not> detect_overheating
       (BatteryReport (base_data
          \<lparr>get_cells := Some [\<lparr>cell_id = 0, voltage = Fin 4, temperature = Fin 45\<rparr>]\<rparr>)) \<and>
   detect_overheating
       (BatteryReport (base_data
          \<lparr>get_cells := Some [\<lparr>cell_id = 0, voltage = Fin 4, temperature = Fin 30\<rparr>,
                              \<lparr>cell_id = 1, voltage = Fin 4, temperature = to_double (451 / 10)\<rparr>,
                              \<lparr>cell_id = 2, voltage = Fin 4, temperature = Fin 32\<rparr>]\<rparr>))"
proof -
  let ?empty = "BatteryReport (base_data\<lparr>get_cells := Some []\<rparr>)"
  let ?exact = "BatteryReport (base_data
          \<lparr>get_cells := Some [\<lparr>cell_id = 0, voltage = Fin 4, temperature = Fin 45\<rparr>]\<rparr>)"
  let ?hot = "BatteryReport (base_data
          \<lparr>get_cells := Some [\<lparr>cell_id = 0, voltage = Fin 4, temperature = Fin 30\<rparr>,
                              \<lparr>cell_id = 1, voltage = Fin 4, temperature = to_double (451 / 10)\<rparr>,
                              \<lparr>cell_id = 2, voltage = Fin 4, temperature = Fin 32\<rparr>]\<rparr>)"
  have "cells ?empty = []" by code_simp
  with detect_overheating_any_cell [of ?empty] have empty: "\<not> detect_overheating ?empty"
    by blast
  have "\<not> (\<exists>c\<in>set (cells ?exact).
        case temperature c of Fin t \<Rightarrow> 45 < t | PInf \<Rightarrow> True | NInf \<Rightarrow> False | NaN \<Rightarrow> False)"
    by (simp add: BatteryReport_def base_data_def dict_get_def)
  with detect_overheating_any_cell [of ?exact] have exact: "\<not> detect_overheating ?exact"
    by blast
  have "\<exists>c\<in>set (cells ?hot).
        case temperature c of Fin t \<Rightarrow> 45 < t | PInf \<Rightarrow> True | NInf \<Rightarrow> False | NaN \<Rightarrow> False"
    by code_simp
  with detect_overheating_any_cell [of ?hot] have hot: "detect_overheating ?hot"
    by blast
  from empty exact hot show ?thesis by blast
qed

text \<open>
  C6. \<^verbatim>\<open>detect_low_health(soh)\<close> is true if and only if \<open>soh < 80.0\<close>; exactly
  80.0 is not low health; and the result is the same for every analyzer object, so it
  depends on the argument \<open>soh\<close> alone. The witness evaluates 80.0, 79.9999, and 75.0 on two
  different snapshots.
\<close>

theorem detect_low_health_threshold:
  "detect_low_health self soh =
     (case soh of Fin s \<Rightarrow> s < 80 | NInf \<Rightarrow> True | PInf \<Rightarrow> False | NaN \<Rightarrow> False) \<and>
   \<not> detect_low_health self (Fin 80) \<and>
   detect_low_health self soh = detect_low_health other soh"
  by (simp add: detect_low_health_def LOW_HEALTH_THRESHOLD_def py_lt_Fin_iff)

theorem detect_low_health_threshold_witness:
  "\<not> detect_low_health (BatteryReport base_data) (Fin 80) \<and>
   detect_low_health (BatteryReport base_data) (to_double (799999 / 10000)) \<and>
   detect_low_health (BatteryReport base_data) (Fin 75) =
     detect_low_health (BatteryReport (base_data\<lparr>get_cells := None, get_cycle_count := None,
        get_nominal_capacity_kwh := None, get_current_capacity_kwh := None\<rparr>)) (Fin 75)"
proof -
  have t: "to_double (799999 / 10000) = Fin (2814746248669351 / 35184372088832)" by code_simp
  from detect_low_health_threshold [of "BatteryReport base_data" "Fin 80"]
    detect_low_health_threshold [of "BatteryReport base_data" "to_double (799999 / 10000)"]
    detect_low_health_threshold [of "BatteryReport base_data" "Fin 75"
      "BatteryReport (base_data\<lparr>get_cells := None, get_cycle_count := None,
        get_nominal_capacity_kwh := None, get_current_capacity_kwh := None\<rparr>)"]
  show ?thesis by (auto simp: t)
qed

text \<open>
  C7, as amended. For every snapshot and every permutation of its cells list,
  \<^verbatim>\<open>detect_overheating\<close> and \<^verbatim>\<open>calculate_state_of_health\<close> return the same
  results on the permuted snapshot as on the original one, and the two reports have the
  same \<^verbatim>\<open>battery_soh\<close>, the same \<^verbatim>\<open>cycle_count\<close> and the same anomaly labels
  apart from the voltage-imbalance label. When moreover no cell voltage is NaN,
  \<^verbatim>\<open>detect_voltage_imbalance\<close> and \<^verbatim>\<open>generate_report\<close> return the same results
  too. The witness permutes the cells with voltages 3.90, 4.00 and 4.10, and swaps two
  cells of which one has a NaN voltage and the other is overheating.
\<close>

theorem cell_order_irrelevance:
  assumes "mset cs' = mset cs"
  shows "detect_overheating (BatteryReport (d\<lparr>get_cells := Some cs'\<rparr>)) =
           detect_overheating (BatteryReport (d\<lparr>get_cells := Some cs\<rparr>)) \<and>
         calculate_state_of_health (BatteryReport (d\<lparr>get_cells := Some cs'\<rparr>)) =
           calculate_state_of_health (BatteryReport (d\<lparr>get_cells := Some cs\<rparr>)) \<and>
         (\<exists>soh anomalies anomalies'.
            generate_report (BatteryReport (d\<lparr>get_cells := Some cs\<rparr>)) =
              Inr [(''battery_soh'', PyFloat soh),
                   (''cycle_count'', PyInt (dict_get (get_cycle_count d) 0)),
                   (''anomalies'', PyStrList anomalies)] \<and>
            generate_report (BatteryReport (d\<lparr>get_cells := Some cs'\<rparr>)) =
              Inr [(''battery_soh'', PyFloat soh),
                   (''cycle_count'', PyInt (dict_get (get_cycle_count d) 0)),
                   (''anomalies'', PyStrList anomalies')] \<and>
            filter (\<lambda>label. label \<noteq> ''Voltage imbalance detected'') anomalies' =
              filter (\<lambda>label. label \<noteq> ''Voltage imbalance detected'') anomalies) \<and>
         ((\<forall>c\<in>set cs. voltage c \<noteq> NaN) \<longrightarrow>
            detect_voltage_imbalance (BatteryReport (d\<lparr>get_cells := Some cs'\<rparr>)) =
              detect_voltage_imbalance (BatteryReport (d\<lparr>get_cells := Some cs\<rparr>)) \<and>
            generate_report (BatteryReport (d\<lparr>get_cells := Some cs'\<rparr>)) =
              generate_report (BatteryReport (d\<lparr>get_cells := Some cs\<rparr>)))"
proof -
  let ?s' = "BatteryReport (d\<lparr>get_cells := Some cs'\<rparr>)"
  let ?s = "BatteryReport (d\<lparr>get_cells := Some cs\<rparr>)"
  have c: "cells ?s' = cs'" "cells ?s = cs"
    by (simp_all add: BatteryReport_def dict_get_def)
  have cc: "cycle_count ?s' = dict_get (get_cycle_count d) 0"
    "cycle_count ?s = dict_get (get_cycle_count d) 0"
    by (simp_all add: BatteryReport_def)
  have "set cs' = set cs" using assms by (rule mset_eq_setD)
  then have oh: "detect_overheating ?s' = detect_overheating ?s"
    by (intro detect_overheating_cong) (simp add: c)
  have soh: "calculate_state_of_health ?s' = calculate_state_of_health ?s"
    by (intro calculate_state_of_health_cong) (simp_all add: BatteryReport_def)
  obtain soh0 where soh0: "calculate_state_of_health ?s = Inr soh0"
    using calculate_state_of_health_returns by blast
  obtain im where im: "detect_voltage_imbalance ?s = Inr im"
    using detect_voltage_imbalance_returns by blast
  obtain im' where im': "detect_voltage_imbalance ?s' = Inr im'"
    using detect_voltage_imbalance_returns by blast
  let ?rest = "(if detect_overheating ?s then [''Overheating detected''] else []) @
               (if detect_low_health ?s soh0 then [''Low State of Health''] else [])"
  let ?a = "(if im then [''Voltage imbalance detected''] else []) @ ?rest"
  let ?a' = "(if im' then [''Voltage imbalance detected''] else []) @ ?rest"
  have a: "detect_anomalies ?s soh0 = Inr ?a"
    by (rule detect_anomalies_eq [OF im])
  have "detect_anomalies ?s' soh0 =
     Inr ((if im' then [''Voltage imbalance detected''] else []) @
          (if detect_overheating ?s' then [''Overheating detected''] else []) @
          (if detect_low_health ?s' soh0 then [''Low State of Health''] else []))"
    by (rule detect_anomalies_eq [OF im'])
  then have a': "detect_anomalies ?s' soh0 = Inr ?a'"
    by (simp add: oh detect_low_health_def)
  have r: "generate_report ?s =
      Inr [(''battery_soh'', PyFloat soh0),
           (''cycle_count'', PyInt (dict_get (get_cycle_count d) 0)),
           (''anomalies'', PyStrList ?a)]"
    using soh0 a cc by (simp add: generate_report_def)
  have r': "generate_report ?s' =
      Inr [(''battery_soh'', PyFloat soh0),
           (''cycle_count'', PyInt (dict_get (get_cycle_count d) 0)),
           (''anomalies'', PyStrList ?a')]"
    using soh0 soh a' cc by (simp add: generate_report_def)
  have f: "filter (\<lambda>label. label \<noteq> ''Voltage imbalance detected'') ?a' =
           filter (\<lambda>label. label \<noteq> ''Voltage imbalance detected'') ?a"
    by simp
  from r r' f have part: "\<exists>soh anomalies anomalies'.
            generate_report ?s =
              Inr [(''battery_soh'', PyFloat soh),
                   (''cycle_count'', PyInt (dict_get (get_cycle_count d) 0)),
                   (''anomalies'', PyStrList anomalies)] \<and>
            generate_report ?s' =
              Inr [(''battery_soh'', PyFloat soh),
                   (''cycle_count'', PyInt (dict_get (get_cycle_count d) 0)),
                   (''anomalies'', PyStrList anomalies')] \<and>
            filter (\<lambda>label. label \<noteq> ''Voltage imbalance detected'') anomalies' =
              filter (\<lambda>label. label \<noteq> ''Voltage imbalance detected'') anomalies"
    by (intro exI conjI)
  have full: "detect_voltage_imbalance ?s' = detect_voltage_imbalance ?s \<and>
      generate_report ?s' = generate_report ?s"
    if n: "\<forall>c\<in>set cs. voltage c \<noteq> NaN"
  proof -
    have vi: "detect_voltage_imbalance ?s' = detect_voltage_imbalance ?s"
      using assms n by (intro detect_voltage_imbalance_perm) (simp_all add: c)
    have "generate_report ?s' = generate_report ?s"
      using soh detect_anomalies_cong [OF vi oh]
      by (intro generate_report_cong) (simp_all add: BatteryReport_def)
    with vi show ?thesis by simp
  qed
  from full have cond: "(\<forall>c\<in>set cs. voltage c \<noteq> NaN) \<longrightarrow>
      detect_voltage_imbalance ?s' = detect_voltage_imbalance ?s \<and>
      generate_report ?s' = generate_report ?s"
    by (rule impI)
  show ?thesis
    by (intro conjI) (rule oh soh part cond)+
qed

theorem cell_order_irrelevance_witness:
  "generate_report
     (BatteryReport (base_data
        \<lparr>get_cells := Some [\<lparr>cell_id = 2, voltage = to_double (410 / 100), temperature = Fin 32\<rparr>,
                            \<lparr>cell_id = 0, voltage = to_double (390 / 100), temperature = Fin 30\<rparr>,
                            \<lparr>cell_id = 1, voltage = to_double (400 / 100), temperature = Fin 31\<rparr>]\<rparr>)) =
   Inr [(''battery_soh'', PyFloat (Fin 90)), (''cycle_count'', PyInt 300),
        (''anomalies'', PyStrList [''Voltage imbalance detected''])] \<and>
   detect_overheating
     (BatteryReport (base_data
        \<lparr>get_cells := Some [\<lparr>cell_id = 1, voltage = Fin 4, temperature = Fin 48\<rparr>,
                            \<lparr>cell_id = 0, voltage = NaN, temperature = Fin 30\<rparr>]\<rparr>)) \<and>
   calculate_state_of_health
     (BatteryReport (base_data
        \<lparr>get_cells := Some [\<lparr>cell_id = 1, voltage = Fin 4, temperature = Fin 48\<rparr>,
                            \<lparr>cell_id = 0, voltage = NaN, temperature = Fin 30\<rparr>]\<rparr>)) =
     Inr (Fin 90)"
proof -
  let ?c0 = "\<lparr>cell_id = 0, voltage = to_double (390 / 100), temperature = Fin 30\<rparr>"
  let ?c1 = "\<lparr>cell_id = 1, voltage = to_double (400 / 100), temperature = Fin 31\<rparr>"
  let ?c2 = "\<lparr>cell_id = 2, voltage = to_double (410 / 100), temperature = Fin 32\<rparr>"
  let ?n0 = "\<lparr>cell_id = 0, voltage = NaN, temperature = Fin 30\<rparr>"
  let ?n1 = "\<lparr>cell_id = 1, voltage = Fin 4, temperature = Fin 48\<rparr>"
  have p: "mset [?c2, ?c0, ?c1] = mset [?c0, ?c1, ?c2]"
    by simp
  have n: "\<forall>c\<in>set [?c0, ?c1, ?c2]. voltage c \<noteq> NaN"
    by code_simp
  have r: "generate_report (BatteryReport (base_data\<lparr>get_cells := Some [?c0, ?c1, ?c2]\<rparr>)) =
     Inr [(''battery_soh'', PyFloat (Fin 90)), (''cycle_count'', PyInt 300),
          (''anomalies'', PyStrList [''Voltage imbalance detected''])]"
    by code_simp
  from cell_order_irrelevance [OF p, of base_data] n
  have "generate_report (BatteryReport (base_data\<lparr>get_cells := Some [?c2, ?c0, ?c1]\<rparr>)) =
     generate_report (BatteryReport (base_data\<lparr>get_cells := Some [?c0, ?c1, ?c2]\<rparr>))"
    by (elim conjE impE) assumption+
  from this r have first: "generate_report (BatteryReport (base_data\<lparr>get_cells := Some [?c2, ?c0, ?c1]\<rparr>)) =
     Inr [(''battery_soh'', PyFloat (Fin 90)), (''cycle_count'', PyInt 300),
          (''anomalies'', PyStrList [''Voltage imbalance detected''])]"
    by (rule trans)
  have q: "mset [?n1, ?n0] = mset [?n0, ?n1]"
    by simp
  have oh: "detect_overheating (BatteryReport (base_data\<lparr>get_cells := Some [?n0, ?n1]\<rparr>))"
    by code_simp
  have soh: "calculate_state_of_health (BatteryReport (base_data\<lparr>get_cells := Some [?n0, ?n1]\<rparr>)) =
      Inr (Fin 90)"
    by code_simp
  note t = cell_order_irrelevance [OF q, of base_data]
  from t [THEN conjunct1] oh
  have second: "detect_overheating (BatteryReport (base_data\<lparr>get_cells := Some [?n1, ?n0]\<rparr>))"
    by (simp only:)
  from t [THEN conjunct2, THEN conjunct1] soh
  have third: "calculate_state_of_health (BatteryReport (base_data\<lparr>get_cells := Some [?n1, ?n0]\<rparr>)) =
      Inr (Fin 90)"
    by (rule trans)
  show ?thesis
    by (intro conjI) (rule first second third)+
qed

text \<open>
  C7 as stated fails when a voltage is NaN, which compares false with everything:
  \<^verbatim>\<open>max\<close> and \<^verbatim>\<open>min\<close> keep a NaN that comes first and skip one that comes
  later. With the voltages NaN, 4.0, 4.5 the spread is NaN and no imbalance is reported;
  with the same cells in the order 4.0, 4.5, NaN the spread is 0.5 and an imbalance is
  reported, so the two reports differ.
\<close>

theorem cell_order_counterexample:
  "mset [\<lparr>cell_id = 0, voltage = NaN, temperature = Fin 30\<rparr>,
         \<lparr>cell_id = 1, voltage = Fin 4, temperature = Fin 31\<rparr>,
         \<lparr>cell_id = 2, voltage = Fin (9 / 2), temperature = Fin 32\<rparr>] =
   mset [\<lparr>cell_id = 1, voltage = Fin 4, temperature = Fin 31\<rparr>,
         \<lparr>cell_id = 2, voltage = Fin (9 / 2), temperature = Fin 32\<rparr>,
         \<lparr>cell_id = 0, voltage = NaN, temperature = Fin 30\<rparr>] \<and>
   detect_voltage_imbalance
     (BatteryReport (base_data
        \<lparr>get_cells := Some [\<lparr>cell_id = 0, voltage = NaN, temperature = Fin 30\<rparr>,
                            \<lparr>cell_id = 1, voltage = Fin 4, temperature = Fin 31\<rparr>,
                            \<lparr>cell_id = 2, voltage = Fin (9 / 2), temperature = Fin 32\<rparr>]\<rparr>)) =
     Inr False \<and>
   detect_voltage_imbalance
     (BatteryReport (base_data
        \<lparr>get_cells := Some [\<lparr>cell_id = 1, voltage = Fin 4, temperature = Fin 31\<rparr>,
                            \<lparr>cell_id = 2, voltage = Fin (9 / 2), temperature = Fin 32\<rparr>,
                            \<lparr>cell_id = 0, voltage = NaN, temperature = Fin 30\<rparr>]\<rparr>)) =
     Inr True \<and>
   generate_report
     (BatteryReport (base_data
        \<lparr>get_cells := Some [\<lparr>cell_id = 0, voltage = NaN, temperature = Fin 30\<rparr>,
                            \<lparr>cell_id = 1, voltage = Fin 4, temperature = Fin 31\<rparr>,
                            \<lparr>cell_id = 2, voltage = Fin (9 / 2), temperature = Fin 32\<rparr>]\<rparr>)) =
     Inr [(''battery_soh'', PyFloat (Fin 90)), (''cycle_count'', PyInt 300),
          (''anomalies'', PyStrList [])] \<and>
   generate_report
     (BatteryReport (base_data
        \<lparr>get_cells := Some [\<lparr>cell_id = 1, voltage = Fin 4, temperature = Fin 31\<rparr>,
                            \<lparr>cell_id = 2, voltage = Fin (9 / 2), temperature = Fin 32\<rparr>,
                            \<lparr>cell_id = 0, voltage = NaN, temperature = Fin 30\<rparr>]\<rparr>)) =
     Inr [(''battery_soh'', PyFloat (Fin 90)), (''cycle_count'', PyInt 300),
          (''anomalies'', PyStrList [''Voltage imbalance detected''])]"
proof (intro conjI)
  show "mset [\<lparr>cell_id = 0, voltage = NaN, temperature = Fin 30\<rparr>,
         \<lparr>cell_id = 1, voltage = Fin 4, temperature = Fin 31\<rparr>,
         \<lparr>cell_id = 2, voltage = Fin (9 / 2), temperature = Fin 32\<rparr>] =
   mset [\<lparr>cell_id = 1, voltage = Fin 4, temperature = Fin 31\<rparr>,
         \<lparr>cell_id = 2, voltage = Fin (9 / 2), temperature = Fin 32\<rparr>,
         \<lparr>cell_id = 0, voltage = NaN, temperature = Fin 30\<rparr>]"
    by simp
qed code_simp+

text \<open>
  C8. Two snapshots that differ only in \<^verbatim>\<open>vehicle_id\<close> and \<^verbatim>\<open>timestamp\<close>
  (each set to any value, or absent) give equal reports. Two snapshots that differ only
  in \<^verbatim>\<open>cycle_count\<close> give reports with the same \<^verbatim>\<open>battery_soh\<close> and the same
  \<^verbatim>\<open>anomalies\<close>; the \<^verbatim>\<open>cycle_count\<close> entry of each report is the cycle count of
  its own snapshot, unmodified.
\<close>

theorem identifiers_and_cycle_count_not_used:
  "generate_report (BatteryReport (d\<lparr>get_vehicle_id := v, get_timestamp := t\<rparr>)) =
     generate_report (BatteryReport d) \<and>
   (\<exists>soh anomalies.
      generate_report (BatteryReport d) =
        Inr [(''battery_soh'', PyFloat soh),
             (''cycle_count'', PyInt (dict_get (get_cycle_count d) 0)),
             (''anomalies'', PyStrList anomalies)] \<and>
      generate_report (BatteryReport (d\<lparr>get_cycle_count := n\<rparr>)) =
        Inr [(''battery_soh'', PyFloat soh),
             (''cycle_count'', PyInt (dict_get n 0)),
             (''anomalies'', PyStrList anomalies)])"
proof -
  let ?s = "BatteryReport d"
  let ?s1 = "BatteryReport (d\<lparr>get_vehicle_id := v, get_timestamp := t\<rparr>)"
  let ?s2 = "BatteryReport (d\<lparr>get_cycle_count := n\<rparr>)"
  have vi1: "detect_voltage_imbalance ?s1 = detect_voltage_imbalance ?s"
    by (intro detect_voltage_imbalance_cong) (simp add: BatteryReport_def)
  have oh1: "detect_overheating ?s1 = detect_overheating ?s"
    by (intro detect_overheating_cong) (simp add: BatteryReport_def)
  have soh1: "calculate_state_of_health ?s1 = calculate_state_of_health ?s"
    by (intro calculate_state_of_health_cong) (simp_all add: BatteryReport_def)
  have r1: "generate_report ?s1 = generate_report ?s"
    using soh1 detect_anomalies_cong [OF vi1 oh1]
    by (intro generate_report_cong) (simp_all add: BatteryReport_def)
  have vi2: "detect_voltage_imbalance ?s2 = detect_voltage_imbalance ?s"
    by (intro detect_voltage_imbalance_cong) (simp add: BatteryReport_def)
  have oh2: "detect_overheating ?s2 = detect_overheating ?s"
    by (intro detect_overheating_cong) (simp add: BatteryReport_def)
  have soh2: "calculate_state_of_health ?s2 = calculate_state_of_health ?s"
    by (intro calculate_state_of_health_cong) (simp_all add: BatteryReport_def)
  from generate_report_eq [of ?s] obtain soh anomalies where
    s: "calculate_state_of_health ?s = Inr soh" "detect_anomalies ?s soh = Inr anomalies"
      "generate_report ?s = Inr [(''battery_soh'', PyFloat soh),
         (''cycle_count'', PyInt (cycle_count ?s)), (''anomalies'', PyStrList anomalies)]"
    by blast
  have "generate_report ?s2 = Inr [(''battery_soh'', PyFloat soh),
         (''cycle_count'', PyInt (cycle_count ?s2)), (''anomalies'', PyStrList anomalies)]"
    using s(1,2) soh2 detect_anomalies_cong [OF vi2 oh2, of soh]
    by (simp add: generate_report_def)
  moreover have "cycle_count ?s2 = dict_get n 0" "cycle_count ?s = dict_get (get_cycle_count d) 0"
    by (simp_all add: BatteryReport_def)
  ultimately show ?thesis using r1 s(3) by auto
qed

theorem identifiers_and_cycle_count_not_used_witness:
  "generate_report
     (BatteryReport (base_data\<lparr>get_vehicle_id := Some ''EV-12345'', get_timestamp := None\<rparr>)) =
     Inr [(''battery_soh'', PyFloat (Fin 90)), (''cycle_count'', PyInt 300),
          (''anomalies'', PyStrList [])] \<and>
   generate_report (BatteryReport (base_data\<lparr>get_cycle_count := Some 412\<rparr>)) =
     Inr [(''battery_soh'', PyFloat (Fin 90)), (''cycle_count'', PyInt 412),
          (''anomalies'', PyStrList [])]"
proof -
  have r: "generate_report (BatteryReport base_data) =
     Inr [(''battery_soh'', PyFloat (Fin 90)), (''cycle_count'', PyInt 300),
          (''anomalies'', PyStrList [])]"
    by code_simp
  from identifiers_and_cycle_count_not_used
         [where d = base_data and v = "Some ''EV-12345''" and t = None and n = "Some 412"] r
  show ?thesis
    by (auto simp: dict_get_def)
qed

text \<open>
  C9. The constructor reads each of \<^verbatim>\<open>cells\<close>, \<^verbatim>\<open>cycle_count\<close>,
  \<^verbatim>\<open>nominal_capacity_kwh\<close> and \<^verbatim>\<open>current_capacity_kwh\<close> with a default, so it
  never raises on a missing key: the object built from a snapshot has the same
  attributes (the stored dictionary apart) and gives the same report as the object built
  from the snapshot in which every missing key holds its default, the empty list for the
  cells and zero for the other three, and the report is always returned. When all four
  keys are missing the report is \<^verbatim>\<open>battery_soh\<close> 0.0, \<^verbatim>\<open>cycle_count\<close> 0 and
  \<^verbatim>\<open>anomalies\<close> \<^verbatim>\<open>["Low State of Health"]\<close>.
\<close>

theorem missing_fields_default:
  "BatteryReport d =
     (BatteryReport (d\<lparr>get_cells := Some (dict_get (get_cells d) []),
                        get_cycle_count := Some (dict_get (get_cycle_count d) 0),
                        get_nominal_capacity_kwh := Some (dict_get (get_nominal_capacity_kwh d) (Fin 0)),
                        get_current_capacity_kwh := Some (dict_get (get_current_capacity_kwh d) (Fin 0))\<rparr>))
     \<lparr>data := d\<rparr> \<and>
   generate_report (BatteryReport d) =
     generate_report
       (BatteryReport (d\<lparr>get_cells := Some (dict_get (get_cells d) []),
                          get_cycle_count := Some (dict_get (get_cycle_count d) 0),
                          get_nominal_capacity_kwh := Some (dict_get (get_nominal_capacity_kwh d) (Fin 0)),
                          get_current_capacity_kwh := Some (dict_get (get_current_capacity_kwh d) (Fin 0))\<rparr>)) \<and>
   (\<exists>r. generate_report (BatteryReport d) = Inr r) \<and>
   (get_cells d = None \<and> get_cycle_count d = None \<and>
    get_nominal_capacity_kwh d = None \<and> get_current_capacity_kwh d = None \<longrightarrow>
      generate_report (BatteryReport d) =
        Inr [(''battery_soh'', PyFloat (Fin 0)), (''cycle_count'', PyInt 0),
             (''anomalies'', PyStrList [''Low State of Health''])])"
proof -
  let ?d' = "d\<lparr>get_cells := Some (dict_get (get_cells d) []),
               get_cycle_count := Some (dict_get (get_cycle_count d) 0),
               get_nominal_capacity_kwh := Some (dict_get (get_nominal_capacity_kwh d) (Fin 0)),
               get_current_capacity_kwh := Some (dict_get (get_current_capacity_kwh d) (Fin 0))\<rparr>"
  have obj: "BatteryReport d = (BatteryReport ?d')\<lparr>data := d\<rparr>"
    by (simp add: BatteryReport_def dict_get_def)
  have vi: "detect_voltage_imbalance (BatteryReport d) = detect_voltage_imbalance (BatteryReport ?d')"
    by (intro detect_voltage_imbalance_cong) (simp add: BatteryReport_def dict_get_def)
  have oh: "detect_overheating (BatteryReport d) = detect_overheating (BatteryReport ?d')"
    by (intro detect_overheating_cong) (simp add: BatteryReport_def dict_get_def)
  have soh: "calculate_state_of_health (BatteryReport d) = calculate_state_of_health (BatteryReport ?d')"
    by (intro calculate_state_of_health_cong) (simp_all add: BatteryReport_def dict_get_def)
  have rep: "generate_report (BatteryReport d) = generate_report (BatteryReport ?d')"
    using soh detect_anomalies_cong [OF vi oh]
    by (intro generate_report_cong) (simp_all add: BatteryReport_def dict_get_def)
  have ret: "\<exists>r. generate_report (BatteryReport d) = Inr r"
    using generate_report_eq [of "BatteryReport d"] by blast
  have "generate_report (BatteryReport d) =
        Inr [(''battery_soh'', PyFloat (Fin 0)), (''cycle_count'', PyInt 0),
             (''anomalies'', PyStrList [''Low State of Health''])]"
    if "get_cells d = None" "get_cycle_count d = None"
       "get_nominal_capacity_kwh d = None" "get_current_capacity_kwh d = None"
    using that
    by (simp add: generate_report_def calculate_state_of_health_def detect_anomalies_def
        detect_voltage_imbalance_def detect_overheating_def detect_low_health_def
        LOW_HEALTH_THRESHOLD_def BatteryReport_def dict_get_def py_eq_def)
  with obj rep ret show ?thesis by blast
qed

theorem missing_fields_default_witness:
  "generate_report
     (BatteryReport \<lparr>get_vehicle_id = Some ''EV-TEST-001'', get_timestamp = None,
        get_cells = None, get_cycle_count = None,
        get_nominal_capacity_kwh = None, get_current_capacity_kwh = None\<rparr>) =
   Inr [(''battery_soh'', PyFloat (Fin 0)), (''cycle_count'', PyInt 0),
        (''anomalies'', PyStrList [''Low State of Health''])] \<and>
   generate_report
     (BatteryReport \<lparr>get_vehicle_id = Some ''EV-TEST-001'', get_timestamp = None,
        get_cells = None, get_cycle_count = None,
        get_nominal_capacity_kwh = None, get_current_capacity_kwh = None\<rparr>) =
   generate_report
     (BatteryReport \<lparr>get_vehicle_id = Some ''EV-TEST-001'', get_timestamp = None,
        get_cells = Some [], get_cycle_count = Some 0,
        get_nominal_capacity_kwh = Some (Fin 0), get_current_capacity_kwh = Some (Fin 0)\<rparr>)"
proof -
  let ?d = "\<lparr>get_vehicle_id = Some ''EV-TEST-001'', get_timestamp = None,
        get_cells = None, get_cycle_count = None,
        get_nominal_capacity_kwh = None, get_current_capacity_kwh = None\<rparr>"
  have missing: "get_cells ?d = None \<and> get_cycle_count ?d = None \<and>
      get_nominal_capacity_kwh ?d = None \<and> get_current_capacity_kwh ?d = None"
    by simp
  from missing_fields_default [of ?d] missing
  have "generate_report (BatteryReport ?d) =
      Inr [(''battery_soh'', PyFloat (Fin 0)), (''cycle_count'', PyInt 0),
           (''anomalies'', PyStrList [''Low State of Health''])]"
    by blast
  moreover from missing_fields_default [of ?d]
  have "generate_report (BatteryReport ?d) =
     generate_report
       (BatteryReport (?d\<lparr>get_cells := Some (dict_get (get_cells ?d) []),
                          get_cycle_count := Some (dict_get (get_cycle_count ?d) 0),
                          get_nominal_capacity_kwh := Some (dict_get (get_nominal_capacity_kwh ?d) (Fin 0)),
                          get_current_capacity_kwh := Some (dict_get (get_current_capacity_kwh ?d) (Fin 0))\<rparr>))"
    by blast
  ultimately show ?thesis
    by (simp add: dict_get_def)
qed

text \<open>
  C10. The list that \<^verbatim>\<open>detect_anomalies\<close> returns, and with it the
  \<^verbatim>\<open>anomalies\<close> entry of every generated report, is a subsequence of the three labels
  in their fixed order: it has at most three elements, no duplicates, and every element
  is one of the three labels.
\<close>

theorem anomalies_subsequence_of_labels:
  "(\<exists>anomalies.
      detect_anomalies self soh = Inr anomalies \<and>
      subseq anomalies [''Voltage imbalance detected'', ''Overheating detected'', ''Low State of Health''] \<and>
      length anomalies \<le> 3 \<and> distinct anomalies \<and>
      set anomalies \<subseteq> {''Voltage imbalance detected'', ''Overheating detected'', ''Low State of Health''}) \<and>
   (\<exists>s anomalies.
      generate_report self =
        Inr [(''battery_soh'', PyFloat s), (''cycle_count'', PyInt (cycle_count self)),
             (''anomalies'', PyStrList anomalies)] \<and>
      subseq anomalies [''Voltage imbalance detected'', ''Overheating detected'', ''Low State of Health''] \<and>
      length anomalies \<le> 3 \<and> distinct anomalies \<and>
      set anomalies \<subseteq> {''Voltage imbalance detected'', ''Overheating detected'', ''Low State of Health''})"
proof -
  have bounds: "length a \<le> 3 \<and>
      set a \<subseteq> {''Voltage imbalance detected'', ''Overheating detected'', ''Low State of Health''}"
    if "subseq a [''Voltage imbalance detected'', ''Overheating detected'', ''Low State of Health'']"
    for a :: "string list"
  proof -
    from that have "length a \<le> length [''Voltage imbalance detected'', ''Overheating detected'', ''Low State of Health'']"
      by (rule list_emb_length)
    moreover from that have "set a \<subseteq> set [''Voltage imbalance detected'', ''Overheating detected'', ''Low State of Health'']"
      by (blast elim: list_emb_set)
    ultimately show ?thesis by simp
  qed
  from detect_anomalies_subseq [of self soh] bounds
  have first: "\<exists>anomalies.
      detect_anomalies self soh = Inr anomalies \<and>
      subseq anomalies [''Voltage imbalance detected'', ''Overheating detected'', ''Low State of Health''] \<and>
      length anomalies \<le> 3 \<and> distinct anomalies \<and>
      set anomalies \<subseteq> {''Voltage imbalance detected'', ''Overheating detected'', ''Low State of Health''}"
    by blast
  from generate_report_eq [of self] obtain s anomalies where
    r: "detect_anomalies self s = Inr anomalies"
      "generate_report self = Inr [(''battery_soh'', PyFloat s),
         (''cycle_count'', PyInt (cycle_count self)), (''anomalies'', PyStrList anomalies)]"
    by blast
  from detect_anomalies_subseq [of self s] r(1)
  have "subseq anomalies [''Voltage imbalance detected'', ''Overheating detected'', ''Low State of Health'']"
    "distinct anomalies" by auto
  with bounds r(2) have "\<exists>s anomalies.
      generate_report self =
        Inr [(''battery_soh'', PyFloat s), (''cycle_count'', PyInt (cycle_count self)),
             (''anomalies'', PyStrList anomalies)] \<and>
      subseq anomalies [''Voltage imbalance detected'', ''Overheating detected'', ''Low State of Health''] \<and>
      length anomalies \<le> 3 \<and> distinct anomalies \<and>
      set anomalies \<subseteq> {''Voltage imbalance detected'', ''Overheating detected'', ''Low State of Health''}"
    by blast
  with first show ?thesis by blast
qed

theorem anomalies_subsequence_of_labels_witness:
  "detect_anomalies
     (BatteryReport (base_data
        \<lparr>get_cells := Some [\<lparr>cell_id = 0, voltage = to_double (380 / 100), temperature = Fin 48\<rparr>,
                            \<lparr>cell_id = 1, voltage = to_double (420 / 100), temperature = Fin 32\<rparr>]\<rparr>))
     (Fin 90) =
     Inr [''Voltage imbalance detected'', ''Overheating detected''] \<and>
   subseq [''Voltage imbalance detected'', ''Overheating detected'']
     [''Voltage imbalance detected'', ''Overheating detected'', ''Low State of Health'']"
proof -
  let ?self = "BatteryReport (base_data
        \<lparr>get_cells := Some [\<lparr>cell_id = 0, voltage = to_double (380 / 100), temperature = Fin 48\<rparr>,
                            \<lparr>cell_id = 1, voltage = to_double (420 / 100), temperature = Fin 32\<rparr>]\<rparr>)"
  have a: "detect_anomalies ?self (Fin 90) =
      Inr [''Voltage imbalance detected'', ''Overheating detected'']"
    by code_simp
  from anomalies_subsequence_of_labels [of ?self "Fin 90"] obtain anomalies where
    "detect_anomalies ?self (Fin 90) = Inr anomalies"
    "subseq anomalies [''Voltage imbalance detected'', ''Overheating detected'', ''Low State of Health'']"
    by blast
  with a show ?thesis by simp
qed

end
